theory Spec2Isabelle
  imports Main "HOL-Library.Sublist" "HOL-Library.Multiset"
begin

section \<open>Python strings\<close>

text \<open>
  A Python \<open>str\<close> is a sequence of Unicode code points; it is modelled as a list of
  natural numbers, so that \<open>len\<close> counts code points and the en dash (U+2013) of the
  scorer's marker list is one element. ASCII literals are written through \<open>asc\<close>.
\<close>

type_synonym pystr = "nat list"

definition asc :: "string \<Rightarrow> pystr" where
  "asc s = map of_char s"

text \<open>
  \<open>str.isspace\<close> for one code point: the code points whose Unicode property is
  white space (bidirectional class WS, B or S, or category Zs).
\<close>

definition py_isspace :: "nat \<Rightarrow> bool" where
  "py_isspace c = ((9 \<le> c \<and> c \<le> 13) \<or> (28 \<le> c \<and> c \<le> 32) \<or> c = 133 \<or> c = 160
     \<or> c = 5760 \<or> (8192 \<le> c \<and> c \<le> 8202) \<or> c = 8232 \<or> c = 8233 \<or> c = 8239
     \<or> c = 8287 \<or> c = 12288)"

text \<open>\<open>s.strip()\<close>: white space removed at both ends.\<close>

definition py_strip :: "pystr \<Rightarrow> pystr" where
  "py_strip s = rev (dropWhile py_isspace (rev (dropWhile py_isspace s)))"

text \<open>
  \<open>str.lower\<close>, \<open>str.isdigit\<close>, \<open>str.title\<close> and \<open>str.isalnum\<close> read the case and
  category tables of Unicode, which are not part of the source. The functions below
  take them as parameters (\<open>lower\<close>, \<open>isdigit\<close>, \<open>title\<close>, \<open>isalnum\<close>, or the fields of
  the world), so every statement about all strings holds for Python's own methods.

  The concrete examples further down need values for them. On ASCII text the Python
  methods are the following functions; the examples pass them ASCII text only.
\<close>

definition lower_char :: "nat \<Rightarrow> nat" where
  "lower_char c = (if 65 \<le> c \<and> c \<le> 90 then c + 32 else c)"

definition ascii_lower :: "pystr \<Rightarrow> pystr" where
  "ascii_lower s = map lower_char s"

text \<open>\<open>x in s\<close> for strings: \<open>x\<close> occurs in \<open>s\<close> as a contiguous block.\<close>

fun py_in :: "pystr \<Rightarrow> pystr \<Rightarrow> bool" where
  "py_in x [] = (x = [])"
| "py_in x (c # cs) = (prefix x (c # cs) \<or> py_in x cs)"

text \<open>\<open>s.startswith(p)\<close>.\<close>

definition startswith :: "pystr \<Rightarrow> pystr \<Rightarrow> bool" where
  "startswith s p = prefix p s"

text \<open>
  \<open>s.replace(old, new)\<close>: the occurrences of \<open>old\<close> are found from the left and do not
  overlap. With an empty \<open>old\<close>, Python puts \<open>new\<close> before every code point and at the end.
\<close>

function py_replace :: "pystr \<Rightarrow> pystr \<Rightarrow> pystr \<Rightarrow> pystr" where
  "py_replace old new [] = (if old = [] then new else [])"
| "py_replace old new (c # cs) =
     (if old = [] then new @ c # py_replace old new cs
      else if prefix old (c # cs) then new @ py_replace old new (drop (length old) (c # cs))
      else c # py_replace old new cs)"
  by pat_completeness auto
termination
  by (relation "measure (\<lambda>(old, new, s). length s)") (auto simp: Suc_le_eq)

text \<open>\<open>s.split(sep)\<close> for a separator of one code point: empty segments are kept.\<close>

fun py_split :: "nat \<Rightarrow> pystr \<Rightarrow> pystr list" where
  "py_split sep [] = [[]]"
| "py_split sep (c # cs) =
     (if c = sep then [] # py_split sep cs
      else (case py_split sep cs of
              [] \<Rightarrow> [[c]]
            | w # ws \<Rightarrow> (c # w) # ws))"

section \<open>Catalog scorer (\<open>is_likely_primary\<close> in bgg\_client.py)\<close>

text \<open>The en dash, U+2013.\<close>

definition en_dash :: nat where
  "en_dash = 8211"

definition markers :: "pystr list" where
  "markers = [asc ''promo'', asc ''expansion'', asc ''exp.'',
     [32, en_dash, 32], asc '': '', asc '' - '']"

definition edition_suffixes :: "pystr list" where
  "edition_suffixes =
    [asc '': second edition'',
     [32, en_dash] @ asc '' second edition'',
     asc '': 2nd edition'',
     [32, en_dash] @ asc '' 2nd edition'',
     asc '': 3rd edition'',
     [32, en_dash] @ asc '' 3rd edition'',
     asc '' (second edition)'',
     asc '' (3rd edition)'']"

text \<open>
  The loop \<open>for suffix in (...): name_stripped = name_stripped.replace(suffix, "")\<close>:
  a left fold over the tuple, in its order.
\<close>

fun strip_loop :: "pystr list \<Rightarrow> pystr \<Rightarrow> pystr" where
  "strip_loop [] name_stripped = name_stripped"
| "strip_loop (sfx # rest) name_stripped =
     strip_loop rest (py_replace sfx [] name_stripped)"

text \<open>
  The function as written: \<open>score\<close> starts at 0 and the three \<open>if\<close> statements
  update it one after the other. \<open>lower\<close> is \<open>str.lower\<close>.
\<close>

definition is_likely_primary :: "(pystr \<Rightarrow> pystr) \<Rightarrow> pystr \<Rightarrow> pystr \<Rightarrow> int" where
  "is_likely_primary lower name query =
     (let score0 = 0;
          name_lower = lower name;
          query_lower = lower query;
          score1 = (if name_lower = query_lower then score0 + 100
                    else if startswith name_lower query_lower then score0 + 80
                    else score0);
          score2 = (if list_ex (\<lambda>x. py_in x name_lower) markers then score1 - 50 else score1);
          name_stripped = strip_loop edition_suffixes name_lower;
          score3 = (if name_stripped = query_lower \<or> startswith name_stripped query_lower
                    then score2 + 70 else score2)
      in score3)"

text \<open>\<open>s.isdigit()\<close> on ASCII text: not empty, and decimal digits only.\<close>

definition ascii_isdigit :: "pystr \<Rightarrow> bool" where
  "ascii_isdigit s = (s \<noteq> [] \<and> list_all (\<lambda>c. 48 \<le> c \<and> c \<le> 57) s)"

text \<open>
  \<open>s.title()\<close> on ASCII text: the first letter of every run of letters is put in upper
  case and the others in lower case; \<open>prev\<close> says that the code point before was a
  letter.
\<close>

definition is_ascii_letter :: "nat \<Rightarrow> bool" where
  "is_ascii_letter c = ((65 \<le> c \<and> c \<le> 90) \<or> (97 \<le> c \<and> c \<le> 122))"

definition upper_char :: "nat \<Rightarrow> nat" where
  "upper_char c = (if 97 \<le> c \<and> c \<le> 122 then c - 32 else c)"

fun title_from :: "bool \<Rightarrow> pystr \<Rightarrow> pystr" where
  "title_from prev [] = []"
| "title_from prev (c # cs) =
     (if is_ascii_letter c
      then (if prev then lower_char c else upper_char c) # title_from True cs
      else c # title_from False cs)"

definition ascii_title :: "pystr \<Rightarrow> pystr" where
  "ascii_title s = title_from False s"

section \<open>Data model\<close>

text \<open>
  The exceptions that reach the resolver: the two \<open>ValueError\<close>s raised by the
  extractor, the \<open>ValueError\<close> of unpacking a sequence of the wrong length, the
  \<open>UnboundLocalError\<close> of reading \<open>model_config\<close> before assignment, and an exception
  raised by an outside service (the number stands for the exception).
\<close>

datatype exn =
    ValueError_llm_failed
  | ValueError_no_english_name
  | ValueError_unpack
  | UnboundLocalError_model_config
  | ServiceError nat

text \<open>A model configuration is opaque to the plugin.\<close>

type_synonym model_config = nat

text \<open>The calls that leave the process, in the order they are made.\<close>

datatype event =
    DdgsText pystr
  | GetAvailableModels
  | GenerateWithModel model_config
  | ApiSearchV2 pystr
  | ApiSearchV1 pystr
  | ApiThing pystr
  | WebSearch pystr
  | WebDetail pystr

type_synonym trace = "event list"

text \<open>
  The dict built by \<open>bgg_thing_details_api\<close> and by the scraping
  \<open>bgg_thing_details\<close>: the same twenty keys in both.
\<close>

record details =
  d_bgg_id :: pystr
  d_name :: pystr
  d_year :: pystr
  d_description :: pystr
  d_min_players :: pystr
  d_max_players :: pystr
  d_min_time :: pystr
  d_max_time :: pystr
  d_min_age :: pystr
  d_users_rated :: pystr
  d_average :: pystr
  d_avg_weight :: pystr
  d_rank :: pystr
  d_strategy_rank :: pystr
  d_image :: pystr
  d_bgg_url :: pystr
  d_categories :: "pystr list"
  d_mechanics :: "pystr list"
  d_best_numplayers :: pystr
  d_language_dependence :: pystr

text \<open>
  The values of \<open>_name_source\<close> and \<open>_bgg_source\<close>; \<open>_source\<close> is the two joined by
  an arrow, so it is the pair.
\<close>

datatype name_source = Dictionary | DDG_AI

datatype bgg_source = BGG_API | LLM_only | Web_scrape | Web_search

text \<open>A details dict with the five keys the resolver adds.\<close>

record game_record =
  g_details :: details
  g_final_query :: pystr
  g_cn_name :: pystr
  g_source :: "name_source \<times> bgg_source"
  g_name_source :: name_source
  g_bgg_source :: bgg_source

text \<open>
  The dict with \<open>bgg_failed\<close>; the keys \<open>bgg_id\<close> and \<open>bgg_url\<close> are present only
  when a scraping search found a hit.
\<close>

record failure_record =
  f_name :: pystr
  f_bgg_id :: "pystr option"
  f_cn_name :: pystr
  f_bgg_url :: "pystr option"
  f_bgg_failed :: bool
  f_source :: "name_source \<times> bgg_source"
  f_name_source :: name_source
  f_bgg_source :: bgg_source

datatype outcome = GameRecord game_record | FailureRecord failure_record

text \<open>An item of a structured search response: its id attribute and its primary name.\<close>

record xml_item =
  it_id :: pystr
  it_name :: "pystr option"

datatype xml_body = ParseError | Items "xml_item list"

datatype api_source = V2 | V1

record scored =
  sc_id :: pystr
  sc_name :: pystr
  sc_score :: int
  sc_source :: api_source

text \<open>An anchor of the search page: its \<open>href\<close> and its text.\<close>

record anchor =
  a_href :: pystr
  a_text :: pystr

record search_hit =
  h_id :: pystr
  h_name :: pystr
  h_url :: pystr

text \<open>
  The world outside the source. \<open>w_lower\<close>, \<open>w_isdigit\<close> and \<open>w_title\<close> are the string
  methods of the Python runtime. Every service answers from the calls made so far and
  its argument, so that two calls with the same argument may be answered differently.
  \<open>w_alias\<close> is the content of alias.json as \<open>load_alias\<close> reads it (empty when the
  file is missing or unreadable). A structured search answers with a status code and a
  body; \<open>w_api_thing\<close> and \<open>w_web_detail\<close> stand for \<open>bgg_thing_details_api\<close> and the
  scraping \<open>bgg_thing_details\<close>, which catch every exception and return a dict or None.
\<close>

record world =
  w_lower :: "pystr \<Rightarrow> pystr"
  w_isdigit :: "pystr \<Rightarrow> bool"
  w_title :: "pystr \<Rightarrow> pystr"
  w_alias :: "pystr \<rightharpoonup> pystr"
  w_ddgs :: "trace \<Rightarrow> pystr \<Rightarrow> exn + (pystr \<times> pystr) list"
  w_models :: "trace \<Rightarrow> exn + (pystr \<times> model_config) list"
  w_generate :: "trace \<Rightarrow> model_config \<Rightarrow> exn + (bool \<times> pystr)"
  w_search_v2 :: "trace \<Rightarrow> pystr \<Rightarrow> exn + (nat \<times> xml_body)"
  w_search_v1 :: "trace \<Rightarrow> pystr \<Rightarrow> exn + (nat \<times> xml_body)"
  w_api_thing :: "trace \<Rightarrow> pystr \<Rightarrow> details option"
  w_web_search :: "trace \<Rightarrow> pystr \<Rightarrow> exn + anchor list"
  w_web_detail :: "trace \<Rightarrow> pystr \<Rightarrow> pystr \<Rightarrow> details option"

section \<open>Candidate extraction by web search and language model (ddg\_client.py)\<close>

text \<open>
  What \<open>fetch_english_candidates_from_ddg\<close> returns: the pair its signature declares,
  or the bare \<open>[]\<close> of the branch for no available model.
\<close>

datatype ddg_return = Bare_empty_list | Returned_pair "pystr list" pystr

text \<open>
  The fallback loop over \<open>models.items()\<close>, in the dict's order: the first entry whose
  name is not "replay" is taken and the loop is left; when the loop ends without one,
  \<open>model_config\<close> stays unassigned (None here).
\<close>

fun fallback_loop :: "(pystr \<times> model_config) list \<Rightarrow> model_config option" where
  "fallback_loop [] = None"
| "fallback_loop ((name, conf) # rest) =
     (if name \<noteq> asc ''replay'' then Some conf else fallback_loop rest)"

definition select_model :: "(pystr \<times> model_config) list \<Rightarrow> model_config option" where
  "select_model models =
     (let target_key = asc ''utils'' in
      if target_key \<in> set (map fst models) then map_of models target_key
      else fallback_loop models)"

text \<open>The prefixes of the answer lines: the labels for the Chinese and the English name,
  each ending in the full-width colon U+FF1A.\<close>

definition cn_prefix :: pystr where
  "cn_prefix = [20013, 25991, 21517, 65306]"

definition en_prefix :: pystr where
  "en_prefix = [33521, 25991, 21517, 65306]"

definition COMMON_TERMS_TO_FILTER :: "pystr list" where
  "COMMON_TERMS_TO_FILTER =
    [asc ''tabletop game'', asc ''board game'', asc ''boardgame'', asc ''card game'',
     asc ''dice game'', asc ''party game'', asc ''strategy game'', asc ''family game'',
     asc ''game'', asc ''tabletop'']"

text \<open>\<open>[line.strip() for line in llm_response.split("\n") if line.strip()]\<close>\<close>

definition response_lines :: "pystr \<Rightarrow> pystr list" where
  "response_lines llm_response =
     filter (\<lambda>l. l \<noteq> []) (map py_strip (py_split 10 llm_response))"

text \<open>The loop over the lines; the state is \<open>(cn_name, en_candidates)\<close>.\<close>

definition keep_en_name :: "(pystr \<Rightarrow> pystr) \<Rightarrow> pystr \<Rightarrow> bool" where
  "keep_en_name lower en_name =
     (let en_name_lower = py_strip (lower en_name) in
      en_name_lower \<notin> set COMMON_TERMS_TO_FILTER \<and> 3 \<le> length en_name
      \<and> \<not> startswith en_name_lower (asc ''http''))"

fun parse_loop ::
  "(pystr \<Rightarrow> pystr) \<Rightarrow> pystr list \<Rightarrow> pystr \<times> pystr list \<Rightarrow> pystr \<times> pystr list" where
  "parse_loop lower [] st = st"
| "parse_loop lower (line # rest) (cn_name, en_candidates) =
     (if startswith line cn_prefix
      then parse_loop lower rest (py_strip (py_replace cn_prefix [] line), en_candidates)
      else if startswith line en_prefix
      then (let en_name = py_strip (py_replace en_prefix [] line) in
            if en_name \<noteq> [] \<and> keep_en_name lower en_name
            then parse_loop lower rest (cn_name, en_candidates @ [en_name])
            else parse_loop lower rest (cn_name, en_candidates))
      else parse_loop lower rest (cn_name, en_candidates))"

text \<open>The loop that drops repeated names; \<open>seen\<close> is the set, \<open>acc\<close> the list built.\<close>

fun unique_loop :: "pystr list \<Rightarrow> pystr list \<Rightarrow> pystr list \<Rightarrow> pystr list" where
  "unique_loop [] seen acc = acc"
| "unique_loop (name # rest) seen acc =
     (if name \<notin> set seen then unique_loop rest (name # seen) (acc @ [name])
      else unique_loop rest seen acc)"

text \<open>The fixed end of the search query: "what is the English name of".\<close>

definition question_suffix :: pystr where
  "question_suffix = [30340, 33521, 25991, 21517, 26159, 20160, 20040]"

text \<open>
  The function. Everything runs inside \<open>try\<close> with \<open>except Exception: raise\<close>, so an
  exception of a service, the two \<open>ValueError\<close>s and the \<open>UnboundLocalError\<close> of an
  unassigned \<open>model_config\<close> all leave the function. The prompt is built from the
  search results, which the world knows; it is not part of the event.
\<close>

definition fetch_english_candidates_from_ddg ::
  "world \<Rightarrow> trace \<Rightarrow> pystr \<Rightarrow> (exn + ddg_return) \<times> trace" where
  "fetch_english_candidates_from_ddg W tr keyword =
     (let search_query = keyword @ question_suffix;
          tr1 = tr @ [DdgsText search_query] in
      case w_ddgs W tr search_query of
        Inl e \<Rightarrow> (Inl e, tr1)
      | Inr results \<Rightarrow>
          (let tr2 = tr1 @ [GetAvailableModels] in
           case w_models W tr1 of
             Inl e \<Rightarrow> (Inl e, tr2)
           | Inr models \<Rightarrow>
               if models = [] then (Inr Bare_empty_list, tr2)
               else
                 (case select_model models of
                    None \<Rightarrow> (Inl UnboundLocalError_model_config, tr2)
                  | Some model_config \<Rightarrow>
                      (let tr3 = tr2 @ [GenerateWithModel model_config] in
                       case w_generate W tr2 model_config of
                         Inl e \<Rightarrow> (Inl e, tr3)
                       | Inr (success, llm_response) \<Rightarrow>
                           if \<not> success \<or> llm_response = [] \<or> py_strip llm_response = []
                           then (Inl ValueError_llm_failed, tr3)
                           else
                             (case parse_loop (w_lower W) (response_lines llm_response) ([], []) of
                                (cn_name, en_candidates) \<Rightarrow>
                                  if en_candidates = []
                                  then (Inl ValueError_no_english_name, tr3)
                                  else (Inr (Returned_pair (unique_loop en_candidates [] [])
                                               cn_name), tr3))))))"

section \<open>Structured search (\<open>bgg_search_api_by_name\<close> in bgg\_client.py)\<close>

text \<open>
  \<open>collect_from_api2\<close> and \<open>collect_from_api1\<close>: they differ in the XML paths they read
  and in the \<open>source\<close> they write; a parse error gives the empty list.
\<close>

fun collect_items ::
  "(pystr \<Rightarrow> pystr) \<Rightarrow> api_source \<Rightarrow> xml_item list \<Rightarrow> pystr \<Rightarrow> scored list" where
  "collect_items lower src [] query = []"
| "collect_items lower src (it # items) query =
     (case it_name it of
        None \<Rightarrow> collect_items lower src items query
      | Some name \<Rightarrow>
          if it_id it \<noteq> [] \<and> name \<noteq> []
          then \<lparr>sc_id = it_id it, sc_name = name,
                sc_score = is_likely_primary lower name query,
                sc_source = src\<rparr> # collect_items lower src items query
          else collect_items lower src items query)"

definition collect_from_api2 :: "(pystr \<Rightarrow> pystr) \<Rightarrow> xml_body \<Rightarrow> pystr \<Rightarrow> scored list" where
  "collect_from_api2 lower body query =
     (case body of ParseError \<Rightarrow> [] | Items items \<Rightarrow> collect_items lower V2 items query)"

definition collect_from_api1 :: "(pystr \<Rightarrow> pystr) \<Rightarrow> xml_body \<Rightarrow> pystr \<Rightarrow> scored list" where
  "collect_from_api1 lower body query =
     (case body of ParseError \<Rightarrow> [] | Items items \<Rightarrow> collect_items lower V1 items query)"

text \<open>
  \<open>sorted(candidates, key=lambda x: x["score"], reverse=True)\<close>. Python's sort is
  stable and \<open>reverse=True\<close> keeps the order of equal elements: it is the stable sort
  by the negated score.
\<close>

definition sorted_by_score :: "scored list \<Rightarrow> scored list" where
  "sorted_by_score candidates = sort_key (\<lambda>x. - sc_score x) candidates"

text \<open>
  The loop \<open>for cand in candidates\<close>: the detail of each candidate is fetched, and the
  first id whose detail is not None is returned.
\<close>

fun probe :: "world \<Rightarrow> trace \<Rightarrow> scored list \<Rightarrow> pystr option \<times> trace" where
  "probe W tr [] = (None, tr)"
| "probe W tr (cand # rest) =
     (let game_id = sc_id cand in
      case w_api_thing W tr game_id of
        Some details \<Rightarrow> (Some game_id, tr @ [ApiThing game_id])
      | None \<Rightarrow> probe W (tr @ [ApiThing game_id]) rest)"

text \<open>
  One tier: the request, then on status 200 the collection, the ranking and the probing.
  An exception of the request is caught and logged; the tier then has no result.
\<close>

definition search_tier ::
  "world \<Rightarrow> trace \<Rightarrow> api_source \<Rightarrow> pystr \<Rightarrow> pystr option \<times> trace" where
  "search_tier W tr src query =
     (let resp = (case src of V2 \<Rightarrow> w_search_v2 W tr query | V1 \<Rightarrow> w_search_v1 W tr query);
          tr1 = tr @ [case src of V2 \<Rightarrow> ApiSearchV2 query | V1 \<Rightarrow> ApiSearchV1 query] in
      case resp of
        Inl e \<Rightarrow> (None, tr1)
      | Inr (status_code, body) \<Rightarrow>
          if status_code = 200
          then (let candidates =
                      (case src of V2 \<Rightarrow> collect_from_api2 (w_lower W) body query
                                 | V1 \<Rightarrow> collect_from_api1 (w_lower W) body query) in
                if candidates = [] then (None, tr1)
                else probe W tr1 (sorted_by_score candidates))
          else (None, tr1))"

definition bgg_search_api_by_name :: "world \<Rightarrow> trace \<Rightarrow> pystr \<Rightarrow> pystr option \<times> trace" where
  "bgg_search_api_by_name W tr query =
     (case search_tier W tr V2 query of
        (Some game_id, tr1) \<Rightarrow> (Some game_id, tr1)
      | (None, tr1) \<Rightarrow> search_tier W tr1 V1 query)"

section \<open>Scraping search (\<open>bgg_search_by_name\<close> in web\_client.py)\<close>

definition BGG_BASE_URL :: pystr where
  "BGG_BASE_URL = asc ''https://boardgamegeek.com''"

text \<open>
  The loop over the anchors, up to its \<open>break\<close>: the result is
  \<open>(bgg_id, game_link, game_name)\<close> of the first anchor that passes the tests, None
  when the loop ends without one. \<open>isdigit\<close> and \<open>title\<close> are the methods of \<open>str\<close>.
\<close>

fun first_game_anchor ::
  "(pystr \<Rightarrow> bool) \<Rightarrow> (pystr \<Rightarrow> pystr) \<Rightarrow> anchor list \<Rightarrow> (pystr \<times> pystr \<times> pystr) option" where
  "first_game_anchor isdigit title [] = None"
| "first_game_anchor isdigit title (a_tag # rest) =
     (let href = a_href a_tag in
      if py_in (asc ''/boardgame/'') href \<and> \<not> py_in (asc ''/boardgamegame'') href
         \<and> \<not> py_in (asc ''/boardgameexpansion'') href
      then (let parts = py_split 47 href in
            if 3 \<le> length parts
            then (let potential_id = parts ! 2 in
                  if isdigit potential_id
                  then (let game_name = py_strip (a_text a_tag) in
                        Some (potential_id, href,
                          if game_name = [] \<and> 3 < length parts
                          then title (py_replace (asc ''-'') (asc '' '') (parts ! 3))
                          else game_name))
                  else first_game_anchor isdigit title rest)
            else first_game_anchor isdigit title rest)
      else first_game_anchor isdigit title rest)"

text \<open>
  The function: an exception of the request (also a status that \<open>raise_for_status\<close>
  rejects) is caught and gives None.
\<close>

definition bgg_search_by_name :: "world \<Rightarrow> trace \<Rightarrow> pystr \<Rightarrow> search_hit option \<times> trace" where
  "bgg_search_by_name W tr query =
     (let tr1 = tr @ [WebSearch query] in
      case w_web_search W tr query of
        Inl e \<Rightarrow> (None, tr1)
      | Inr anchors \<Rightarrow>
          (case first_game_anchor (w_isdigit W) (w_title W) anchors of
             None \<Rightarrow> (None, tr1)
           | Some (bgg_id, game_link, game_name) \<Rightarrow>
               if game_link = [] then (None, tr1)
               else (Some \<lparr>h_id = bgg_id, h_name = game_name,
                            h_url = (if startswith game_link (asc ''/'')
                                     then BGG_BASE_URL @ game_link else game_link)\<rparr>, tr1)))"

section \<open>Resolver (\<open>resolve_boardgame_by_cn_name\<close> in bgg\_client.py)\<close>

text \<open>\<open>[c.strip() for c in raw.split("|") if c.strip()]\<close>\<close>

definition alias_candidates :: "pystr \<Rightarrow> pystr list" where
  "alias_candidates raw = filter (\<lambda>c. c \<noteq> []) (map py_strip (py_split 124 raw))"

text \<open>The word for board game that is put after the query, with the space before it.\<close>

definition board_game_suffix :: pystr where
  "board_game_suffix = [32, 26700, 28216]"

text \<open>
  The first part of the resolver, up to the test \<open>if not candidates: return None\<close>:
  the candidates, \<open>extracted_cn_name\<close> and \<open>from_alias\<close>. The call of the extractor is
  outside every \<open>try\<close>, so its exception leaves the resolver; its result is unpacked
  into two names, which raises \<open>ValueError\<close> on the bare empty list.
\<close>

definition extract_candidates ::
  "world \<Rightarrow> pystr \<Rightarrow> (exn + pystr list \<times> pystr \<times> bool) \<times> trace" where
  "extract_candidates W cn_name =
     (let raw = py_strip (case w_alias W cn_name of None \<Rightarrow> [] | Some v \<Rightarrow> v);
          candidates = (if raw \<noteq> [] then alias_candidates raw else []);
          from_alias = (raw \<noteq> []) in
      if candidates = []
      then (case fetch_english_candidates_from_ddg W [] (cn_name @ board_game_suffix) of
              (Inl e, tr) \<Rightarrow> (Inl e, tr)
            | (Inr Bare_empty_list, tr) \<Rightarrow> (Inl ValueError_unpack, tr)
            | (Inr (Returned_pair ddg_candidates extracted_cn_name), tr) \<Rightarrow>
                (Inr (candidates @ ddg_candidates, extracted_cn_name, from_alias), tr))
      else (Inr (candidates, cn_name, from_alias), []))"

text \<open>
  The first loop: each candidate goes through the structured search and, when that
  gives an id, through the detail operation once more. The \<open>except\<close> of the loop body
  has nothing to catch: the two operations catch their exceptions themselves.
\<close>

fun api_loop :: "world \<Rightarrow> trace \<Rightarrow> pystr list \<Rightarrow> (pystr \<times> details) option \<times> trace" where
  "api_loop W tr [] = (None, tr)"
| "api_loop W tr (q # rest) =
     (case bgg_search_api_by_name W tr q of
        (None, tr1) \<Rightarrow> api_loop W tr1 rest
      | (Some game_id, tr1) \<Rightarrow>
          if game_id \<noteq> []
          then (case w_api_thing W tr1 game_id of
                  Some details \<Rightarrow> (Some (q, details), tr1 @ [ApiThing game_id])
                | None \<Rightarrow> api_loop W (tr1 @ [ApiThing game_id]) rest)
          else api_loop W tr1 rest)"

text \<open>The second loop: the scraping search of each candidate, left at the first hit.\<close>

fun scrape_loop :: "world \<Rightarrow> trace \<Rightarrow> pystr list \<Rightarrow> (search_hit \<times> pystr) option \<times> trace" where
  "scrape_loop W tr [] = (None, tr)"
| "scrape_loop W tr (q # rest) =
     (case bgg_search_by_name W tr q of
        (Some result, tr1) \<Rightarrow> (Some (result, q), tr1)
      | (None, tr1) \<Rightarrow> scrape_loop W tr1 rest)"

definition name_source_of :: "bool \<Rightarrow> name_source" where
  "name_source_of from_alias = (if from_alias then Dictionary else DDG_AI)"

text \<open>
  The resolver from the first loop on, for a list of candidates. Creating the HTTP client
  before the first loop and closing it in \<open>finally\<close> send nothing and are left out.
\<close>

definition resolve_candidates ::
  "world \<Rightarrow> trace \<Rightarrow> pystr list \<Rightarrow> pystr \<Rightarrow> bool \<Rightarrow> outcome \<times> trace" where
  "resolve_candidates W tr candidates extracted_cn_name from_alias =
     (let ns = name_source_of from_alias in
      case api_loop W tr candidates of
        (Some (q, details), tr1) \<Rightarrow>
          (GameRecord \<lparr>g_details = details, g_final_query = q, g_cn_name = extracted_cn_name,
             g_source = (ns, BGG_API), g_name_source = ns, g_bgg_source = BGG_API\<rparr>, tr1)
      | (None, tr1) \<Rightarrow>
          (case scrape_loop W tr1 candidates of
             (None, tr2) \<Rightarrow>
               (FailureRecord \<lparr>f_name = (case candidates of [] \<Rightarrow> [] | c # _ \<Rightarrow> c),
                  f_bgg_id = None, f_cn_name = extracted_cn_name, f_bgg_url = None,
                  f_bgg_failed = True, f_source = (ns, LLM_only), f_name_source = ns,
                  f_bgg_source = LLM_only\<rparr>, tr2)
           | (Some (search_result, final_query), tr2) \<Rightarrow>
               (let tr3 = tr2 @ [WebDetail (h_url search_result)] in
                case w_web_detail W tr2 (h_url search_result) (h_name search_result) of
                  Some details \<Rightarrow>
                    (GameRecord \<lparr>g_details = details, g_final_query = final_query,
                       g_cn_name = extracted_cn_name, g_source = (ns, Web_scrape),
                       g_name_source = ns, g_bgg_source = Web_scrape\<rparr>, tr3)
                | None \<Rightarrow>
                    (FailureRecord \<lparr>f_name = h_name search_result,
                       f_bgg_id = Some (h_id search_result), f_cn_name = extracted_cn_name,
                       f_bgg_url = Some (h_url search_result), f_bgg_failed = True,
                       f_source = (ns, Web_search), f_name_source = ns,
                       f_bgg_source = Web_search\<rparr>, tr3))))"

text \<open>
  The whole resolver: \<open>Inl\<close> is an exception that reaches the caller, \<open>Inr None\<close> the
  return of None, \<open>Inr (Some r)\<close> the return of a dict.
\<close>

definition resolve_boardgame_by_cn_name ::
  "world \<Rightarrow> pystr \<Rightarrow> (exn + outcome option) \<times> trace" where
  "resolve_boardgame_by_cn_name W cn_name =
     (case extract_candidates W cn_name of
        (Inl e, tr) \<Rightarrow> (Inl e, tr)
      | (Inr (candidates, extracted_cn_name, from_alias), tr) \<Rightarrow>
          if candidates = [] then (Inr None, tr)
          else (case resolve_candidates W tr candidates extracted_cn_name from_alias of
                  (r, tr') \<Rightarrow> (Inr (Some r), tr')))"

section \<open>Average weight of a scraped page (\<open>bgg_thing_details\<close> in web\_client.py)\<close>

text \<open>
  A value that \<open>json.loads\<close> builds; \<open>'f\<close> is Python's \<open>float\<close>. A dict is the list of
  its items, each key once.
\<close>

datatype 'f json =
    JNone
  | JBool bool
  | JInt int
  | JFloat 'f
  | JStr pystr
  | JList "'f json list"
  | JDict "(pystr \<times> 'f json) list"

text \<open>
  The lines that compute \<open>avgweight_str\<close> from \<open>avgweight\<close>. \<open>float\<close> is Python's
  \<open>float(s)\<close>, None when it raises \<open>ValueError\<close>, and \<open>fmt\<close> is the format \<open>.2f\<close>; both
  are parameters.
\<close>

definition avgweight_str :: "(pystr \<Rightarrow> 'f option) \<Rightarrow> ('f \<Rightarrow> pystr) \<Rightarrow> 'f json \<Rightarrow> pystr" where
  "avgweight_str float fmt avgweight =
     (case avgweight of
        JStr s \<Rightarrow>
          if s \<noteq> []
          then (case float s of Some avgweight_val \<Rightarrow> fmt avgweight_val | None \<Rightarrow> asc ''N/A'')
          else asc ''N/A''
      | _ \<Rightarrow> asc ''N/A'')"

text \<open>
  The same lines from the dict \<open>stats\<close>: \<open>stats.get("avgweight", "0")\<close>, then the above.
  This is the value of the key \<open>avg_weight\<close> whenever the function returns a dict.
\<close>

definition avg_weight_of_stats ::
  "(pystr \<Rightarrow> 'f option) \<Rightarrow> ('f \<Rightarrow> pystr) \<Rightarrow> (pystr \<times> 'f json) list \<Rightarrow> pystr" where
  "avg_weight_of_stats float fmt stats =
     avgweight_str float fmt
       (case map_of stats (asc ''avgweight'') of None \<Rightarrow> JStr (asc ''0'') | Some v \<Rightarrow> v)"

section \<open>Registration command (register.py)\<close>

text \<open>
  alias.json: missing, not readable as JSON, or the JSON object of strings that
  \<open>save_alias\<close> writes. \<open>write_failure\<close> is None when writing the file succeeds, and
  else the state in which the failed write leaves the file; \<open>remove_fails\<close> says
  whether removing the file fails.
\<close>

datatype file_state = Missing | Unreadable | Json "pystr \<rightharpoonup> pystr"

record fs =
  alias_file :: file_state
  write_failure :: "file_state option"
  remove_fails :: bool

definition save_alias :: "fs \<Rightarrow> (pystr \<rightharpoonup> pystr) \<Rightarrow> bool \<times> fs" where
  "save_alias s alias =
     (case write_failure s of
        None \<Rightarrow> (True, s\<lparr>alias_file := Json alias\<rparr>)
      | Some left \<Rightarrow> (False, s\<lparr>alias_file := left\<rparr>))"

definition load_alias_from_file :: "fs \<Rightarrow> (pystr \<rightharpoonup> pystr)" where
  "load_alias_from_file s =
     (case alias_file s of Missing \<Rightarrow> Map.empty | Unreadable \<Rightarrow> Map.empty | Json d \<Rightarrow> d)"

definition clear_alias_file :: "fs \<Rightarrow> bool \<times> fs" where
  "clear_alias_file s =
     (if alias_file s \<noteq> Missing
      then (if remove_fails s then (False, s) else (True, s\<lparr>alias_file := Missing\<rparr>))
      else (False, s))"

text \<open>The second component of what \<open>execute\<close> returns, one value for each message.\<close>

datatype reply =
    Data_cleared
  | Clear_failed
  | Delete_format_error
  | Delete_done
  | Delete_failed
  | Record_missing
  | Format_error
  | English_name_format_error
  | Record_exists
  | Registered
  | Save_failed

text \<open>The words that ask for a deletion, the first being the Chinese word for it.\<close>

definition delete_words :: "pystr list" where
  "delete_words = [[21024, 38500], asc ''delete'', asc ''remove'', asc ''del'']"

text \<open>The Chinese word that asks for clearing the file.\<close>

definition clear_word :: pystr where
  "clear_word = [28165, 31354]"

text \<open>
  \<open>BoardgameRegisterCommand.execute\<close> on the two matched groups. \<open>lower\<close> is
  \<open>str.lower\<close> and \<open>isalnum\<close> is \<open>str.isalnum\<close> for one code point. The handler of the
  last \<open>try\<close> is reached only when sending the message raises; sending is not modelled.
\<close>

definition execute ::
  "(pystr \<Rightarrow> pystr) \<Rightarrow> (nat \<Rightarrow> bool) \<Rightarrow> fs \<Rightarrow> pystr \<Rightarrow> pystr
     \<Rightarrow> (bool \<times> reply \<times> bool) \<times> fs" where
  "execute lower isalnum s cn_group en_group =
     (let cn_name = py_strip cn_group;
          en_name = py_strip en_group in
      if cn_name = clear_word
      then (case clear_alias_file s of
              (ok, s') \<Rightarrow> if ok then ((True, Data_cleared, True), s')
                          else ((True, Clear_failed, True), s'))
      else if lower en_name \<in> set delete_words
      then (if cn_name = [] then ((True, Delete_format_error, True), s)
            else (let existing_alias = load_alias_from_file s in
                  if cn_name \<in> dom existing_alias
                  then (case save_alias s (existing_alias(cn_name := None)) of
                          (ok, s') \<Rightarrow> if ok then ((True, Delete_done, True), s')
                                      else ((True, Delete_failed, False), s'))
                  else ((True, Record_missing, False), s)))
      else if cn_name = [] then ((True, Format_error, True), s)
      else if en_name = [] then ((True, Format_error, True), s)
      else if \<not> list_ex isalnum en_name then ((True, English_name_format_error, True), s)
      else (let existing_alias = load_alias_from_file s;
                existing_en = existing_alias cn_name in
            if existing_en \<noteq> None \<and> existing_en \<noteq> Some []
            then ((True, Record_exists, False), s)
            else (let new_alias = [cn_name \<mapsto> en_name] in
                  case save_alias s new_alias of
                    (ok, s') \<Rightarrow> if ok then ((True, Registered, True), s')
                                else ((True, Save_failed, False), s'))))"

section \<open>The scorer as the specification words it\<close>

text \<open>
  The six markers that the specification lists, and the eight edition strings: the
  specification names three of them as examples, the list is the tuple of the source.
  Both are written out here once more, apart from the constants of the scorer.
\<close>

definition the_markers :: "pystr list" where
  "the_markers = [asc ''promo'', asc ''expansion'', asc ''exp.'',
     [32, 8211, 32], asc '': '', asc '' - '']"

definition the_edition_strings :: "pystr list" where
  "the_edition_strings =
    [asc '': second edition'',
     [32, 8211] @ asc '' second edition'',
     asc '': 2nd edition'',
     [32, 8211] @ asc '' 2nd edition'',
     asc '': 3rd edition'',
     [32, 8211] @ asc '' 3rd edition'',
     asc '' (second edition)'',
     asc '' (3rd edition)'']"

text \<open>
  The specification's third rule strips known edition suffixes from the name. Read as
  written, a suffix is text at the end of the name: each string of the list, in the list's
  order, is cut off when the name ends with it.
\<close>

definition strip_suffix :: "pystr \<Rightarrow> pystr \<Rightarrow> pystr" where
  "strip_suffix sfx s =
     (if sfx \<noteq> [] \<and> suffix sfx s then take (length s - length sfx) s else s)"

definition spec_stripped :: "pystr \<Rightarrow> pystr" where
  "spec_stripped name_lower = fold strip_suffix the_edition_strings name_lower"

definition spec_score :: "(pystr \<Rightarrow> pystr) \<Rightarrow> pystr \<Rightarrow> pystr \<Rightarrow> int" where
  "spec_score lower name query =
     (if lower name = lower query then 100
      else if prefix (lower query) (lower name) then 80 else 0)
     + (if \<exists>m \<in> set the_markers. sublist m (lower name) then - 50 else 0)
     + (if spec_stripped (lower name) = lower query
           \<or> prefix (lower query) (spec_stripped (lower name)) then 70 else 0)"

text \<open>
  What the code does instead, said without the code: one pass over the text removes the
  occurrences of \<open>old\<close> wherever they stand. A text without an occurrence is left as it
  is. Otherwise the leftmost occurrence is cut out (no occurrence starts before it: none
  lies in \<open>u\<close> followed by all of \<open>old\<close> but its last element) and the pass goes on in
  the text behind it. Text that comes together where an occurrence was cut out is not
  looked at again.
\<close>

inductive pass_removes :: "pystr \<Rightarrow> pystr \<Rightarrow> pystr \<Rightarrow> bool" for old :: pystr where
  no_occurrence: "\<not> sublist old s \<Longrightarrow> pass_removes old s s"
| leftmost: "\<not> sublist old (u @ butlast old) \<Longrightarrow> pass_removes old rest r
     \<Longrightarrow> pass_removes old (u @ old @ rest) (u @ r)"

text \<open>One such pass for each string of a list, in the list's order.\<close>

inductive passes_remove :: "pystr list \<Rightarrow> pystr \<Rightarrow> pystr \<Rightarrow> bool" where
  no_pass: "passes_remove [] s s"
| next_pass: "pass_removes old s r \<Longrightarrow> passes_remove olds r r'
     \<Longrightarrow> passes_remove (old # olds) s r'"

text \<open>Names with an edition string in the middle, and a query.\<close>

definition name_mid_edition :: pystr where
  "name_mid_edition = asc ''Catan (Second Edition) Deluxe''"

definition name_colon_edition :: pystr where
  "name_colon_edition = asc ''Catan: 2nd Edition Deluxe''"

definition query_mid_edition :: pystr where
  "query_mid_edition = asc ''Catan Deluxe''"

section \<open>Notions for stating the properties\<close>



text \<open>The requests of the structured API: the two searches and the detail operation.\<close>

definition is_api_event :: "event \<Rightarrow> bool" where
  "is_api_event e =
     (case e of ApiSearchV2 q \<Rightarrow> True | ApiSearchV1 q \<Rightarrow> True | ApiThing g \<Rightarrow> True | _ \<Rightarrow> False)"

text \<open>
  The scraping search of candidate \<open>i\<close> returns a hit, when it is made after the
  scraping searches of the candidates before it.
\<close>

definition hit_at :: "world \<Rightarrow> trace \<Rightarrow> pystr list \<Rightarrow> nat \<Rightarrow> bool" where
  "hit_at W tr cs i =
     (fst (bgg_search_by_name W (tr @ map WebSearch (take i cs)) (cs ! i)) \<noteq> None)"

text \<open>The calls of the web search and of the language model service.\<close>

definition is_extractor_event :: "event \<Rightarrow> bool" where
  "is_extractor_event e =
     (case e of DdgsText q \<Rightarrow> True | GetAvailableModels \<Rightarrow> True
      | GenerateWithModel m \<Rightarrow> True | _ \<Rightarrow> False)"


text \<open>
  A line of the model's answer that gives an English name, and the name it gives. The
  name survives the filter when it is not empty, is not a generic term of the stop list
  in lower case, has at least three code points and does not start with "http".
\<close>

definition english_name_of :: "pystr \<Rightarrow> pystr" where
  "english_name_of line = py_strip (py_replace en_prefix [] line)"

definition survives :: "(pystr \<Rightarrow> pystr) \<Rightarrow> pystr \<Rightarrow> bool" where
  "survives lower line =
     (startswith line en_prefix \<and> english_name_of line \<noteq> []
      \<and> py_strip (lower (english_name_of line)) \<notin> set COMMON_TERMS_TO_FILTER
      \<and> 3 \<le> length (english_name_of line)
      \<and> \<not> startswith (py_strip (lower (english_name_of line))) (asc ''http''))"

text \<open>
  Joining pieces with a separator, the inverse of splitting at it; it serves to say what
  \<open>py_split\<close> returns.
\<close>

fun py_join :: "nat \<Rightarrow> pystr list \<Rightarrow> pystr" where
  "py_join sep [] = []"
| "py_join sep [w] = w"
| "py_join sep (w # v # ws) = w @ sep # py_join sep (v # ws)"

section \<open>Concrete inputs\<close>





text \<open>The Chinese name of Catan, a query.\<close>

definition query_catan :: pystr where
  "query_catan = [21345, 22374, 23707]"

text \<open>An anchor of a search page that has no text and whose href has no name part.\<close>

definition anchor_no_text :: anchor where
  "anchor_no_text = \<lparr>a_href = asc ''/boardgame/13'', a_text = []\<rparr>"

text \<open>
  A world in which the dictionary knows the query, the structured API and the language
  model service are out of reach, the scraping search finds that anchor and the detail
  page cannot be read.
\<close>

definition world_down :: world where
  "world_down =
     \<lparr>w_lower = ascii_lower, w_isdigit = ascii_isdigit, w_title = ascii_title,
      w_alias = [query_catan \<mapsto> asc ''Catan''],
      w_ddgs = (\<lambda>tr q. Inl (ServiceError 0)),
      w_models = (\<lambda>tr. Inr []),
      w_generate = (\<lambda>tr m. Inl (ServiceError 0)),
      w_search_v2 = (\<lambda>tr q. Inl (ServiceError 0)),
      w_search_v1 = (\<lambda>tr q. Inl (ServiceError 0)),
      w_api_thing = (\<lambda>tr g. None),
      w_web_search = (\<lambda>tr q. Inr [anchor_no_text]),
      w_web_detail = (\<lambda>tr u n. None)\<rparr>"

text \<open>The same world with a search page that has no anchor.\<close>

definition world_offline :: world where
  "world_offline = world_down\<lparr>w_web_search := (\<lambda>tr q. Inr [])\<rparr>"

text \<open>The same world with a dictionary entry that is a bare separator.\<close>

definition world_bar :: world where
  "world_bar = world_down\<lparr>w_alias := [query_catan \<mapsto> asc ''|'']\<rparr>"

text \<open>The same world with a dictionary entry that ends in a separator.\<close>

definition world_trailing_bar :: world where
  "world_trailing_bar = world_down\<lparr>w_alias := [query_catan \<mapsto> asc ''Catan|'']\<rparr>"

text \<open>
  A world without a dictionary entry in which the web search answers, the model "utils"
  is available and the generation reports failure.
\<close>

definition world_llm_down :: world where
  "world_llm_down = world_down
     \<lparr>w_alias := Map.empty,
      w_ddgs := (\<lambda>tr q. Inr []),
      w_models := (\<lambda>tr. Inr [(asc ''utils'', 5)]),
      w_generate := (\<lambda>tr m. Inr (False, []))\<rparr>"

text \<open>The same world with no available model.\<close>

definition world_no_models :: world where
  "world_no_models = world_llm_down\<lparr>w_models := (\<lambda>tr. Inr [])\<rparr>"

text \<open>The same world in which the only available model is named "embedding".\<close>

definition world_embedding :: world where
  "world_embedding = world_llm_down\<lparr>w_models := (\<lambda>tr. Inr [(asc ''embedding'', 7)])\<rparr>"

text \<open>The same world with the models "replay" and "chat", in this order.\<close>

definition world_replay_first :: world where
  "world_replay_first =
     world_llm_down\<lparr>w_models := (\<lambda>tr. Inr [(asc ''replay'', 2), (asc ''chat'', 3)])\<rparr>"

text \<open>The same world with a generation that answers with a generic term.\<close>

definition world_generic_answer :: world where
  "world_generic_answer =
     world_llm_down\<lparr>w_generate := (\<lambda>tr m. Inr (True, en_prefix @ asc ''board game''))\<rparr>"

text \<open>The search query that the extractor builds for the Chinese name of Catan.\<close>

definition catan_search_query :: pystr where
  "catan_search_query = query_catan @ board_game_suffix @ question_suffix"

text \<open>
  Stand-ins for \<open>float\<close> and the format in examples whose value is not a string: the
  code does not call them there.
\<close>

definition float_unused :: "pystr \<Rightarrow> unit option" where
  "float_unused s = None"

definition fmt_unused :: "unit \<Rightarrow> pystr" where
  "fmt_unused x = []"

text \<open>\<open>str.isalnum\<close> for one code point of ASCII text.\<close>

definition ascii_isalnum :: "nat \<Rightarrow> bool" where
  "ascii_isalnum c = ((48 \<le> c \<and> c \<le> 57) \<or> (65 \<le> c \<and> c \<le> 90) \<or> (97 \<le> c \<and> c \<le> 122))"

text \<open>An alias file with one entry, which can be written.\<close>

definition fs_with_old_entry :: fs where
  "fs_with_old_entry =
     \<lparr>alias_file = Json [asc ''old'' \<mapsto> asc ''Old Game''], write_failure = None,
      remove_fails = False\<rparr>"

section \<open>Properties\<close>

subsection \<open>Strings\<close>

lemmas str_eval = asc_def ascii_lower_def lower_char_def markers_def edition_suffixes_def
  startswith_def en_dash_def

lemma py_in_sublist: "py_in x s \<longleftrightarrow> sublist x s"
  by (induction s) (auto simp: sublist_Cons_right)

lemma replace_no_occurrence:
  "old \<noteq> [] \<Longrightarrow> \<not> sublist old s \<Longrightarrow> py_replace old [] s = s"
  by (induction s) (auto simp: sublist_Cons_right)

lemma not_sublist_butlast: "old \<noteq> [] \<Longrightarrow> \<not> sublist old (butlast old)"
proof
  assume "old \<noteq> []" "sublist old (butlast old)"
  then have "length old \<le> length (butlast old)" by (intro sublist_length_le)
  with \<open>old \<noteq> []\<close> show False by (cases old rule: rev_cases) auto
qed

lemma prefix_before_occurrence:
  assumes "old \<noteq> []" "prefix old (c # u @ old @ rest)"
  shows "prefix old (c # u @ butlast old)"
proof -
  have "prefix (c # u @ butlast old) (c # u @ old @ rest)"
    using assms(1) by (cases old rule: rev_cases) auto
  moreover have "length old \<le> length (c # u @ butlast old)" by simp
  ultimately show ?thesis using assms(2) prefix_length_prefix by blast
qed

lemma replace_leftmost:
  "old \<noteq> [] \<Longrightarrow> \<not> sublist old (u @ butlast old)
     \<Longrightarrow> py_replace old [] (u @ old @ rest) = u @ py_replace old [] rest"
proof (induction u)
  case Nil
  then obtain a old' where old: "old = a # old'" by (cases old) auto
  show ?case by (simp add: old)
next
  case (Cons c u)
  from Cons.prems(2) have np: "\<not> prefix old (c # u @ butlast old)"
    and ns: "\<not> sublist old (u @ butlast old)"
    by (auto simp: sublist_Cons_right)
  from np prefix_before_occurrence[OF Cons.prems(1)]
  have "\<not> prefix old (c # u @ old @ rest)" by blast
  with Cons.prems(1) Cons.IH[OF Cons.prems(1) ns] show ?case by simp
qed

lemma pass_removes_is_replace:
  "pass_removes old s r \<Longrightarrow> old \<noteq> [] \<Longrightarrow> r = py_replace old [] s"
  by (induction rule: pass_removes.induct)
    (simp_all add: replace_no_occurrence replace_leftmost)

lemma pass_removes_Cons:
  assumes "pass_removes old cs r" "\<not> prefix old (c # cs)" "old \<noteq> []"
  shows "pass_removes old (c # cs) (c # r)"
  using assms(1)
proof (cases rule: pass_removes.cases)
  case no_occurrence
  with assms(2) have "\<not> sublist old (c # cs)" by (simp add: sublist_Cons_right)
  with no_occurrence show ?thesis by (simp add: pass_removes.no_occurrence)
next
  case (leftmost u rest r0)
  from assms(2) leftmost(1) prefix_before_occurrence[OF assms(3), of c u rest]
  have "\<not> prefix old (c # u @ butlast old)"
    by (metis append_Cons prefix_order.trans prefixI append_butlast_last_id append.assoc assms(3))
  with leftmost(3) have "\<not> sublist old ((c # u) @ butlast old)"
    by (simp add: sublist_Cons_right)
  from pass_removes.leftmost[OF this leftmost(4)] leftmost(1,2) show ?thesis by simp
qed

lemma replace_is_pass_removes:
  "old \<noteq> [] \<Longrightarrow> pass_removes old s (py_replace old [] s)"
proof (induction s rule: length_induct)
  case (1 s)
  show ?case
  proof (cases s)
    case Nil
    with 1(2) have "\<not> sublist old s" by simp
    from pass_removes.no_occurrence[OF this] Nil 1(2) show ?thesis by simp
  next
    case (Cons c cs)
    show ?thesis
    proof (cases "prefix old (c # cs)")
      case True
      then obtain rest where rest: "c # cs = old @ rest" by (auto simp: prefix_def)
      with 1(2) have "length rest < length s" using Cons by (cases old) auto
      with 1 have ih: "pass_removes old rest (py_replace old [] rest)" by blast
      have "\<not> sublist old ([] @ butlast old)" using not_sublist_butlast[OF 1(2)] by simp
      from pass_removes.leftmost[OF this ih]
      have "pass_removes old (old @ rest) (py_replace old [] rest)" by simp
      moreover have "py_replace old [] (c # cs) = py_replace old [] rest"
        using replace_leftmost[OF 1(2), of "[]" rest] not_sublist_butlast[OF 1(2)] rest
        by simp
      ultimately show ?thesis using Cons rest by simp
    next
      case False
      from 1 Cons have ih: "pass_removes old cs (py_replace old [] cs)" by simp
      from pass_removes_Cons[OF ih False 1(2)] False 1(2) Cons show ?thesis by simp
    qed
  qed
qed

lemma passes_remove_is_strip_loop:
  "passes_remove olds s r \<Longrightarrow> [] \<notin> set olds \<Longrightarrow> r = strip_loop olds s"
  by (induction rule: passes_remove.induct) (auto dest: pass_removes_is_replace)

lemma strip_loop_is_passes_remove:
  "[] \<notin> set olds \<Longrightarrow> passes_remove olds s (strip_loop olds s)"
proof (induction olds arbitrary: s)
  case Nil
  then show ?case by (simp add: passes_remove.no_pass)
next
  case (Cons old olds)
  then have "old \<noteq> []" "[] \<notin> set olds" by auto
  from passes_remove.next_pass[OF replace_is_pass_removes[OF this(1)] Cons.IH[OF this(2)]]
  show ?case by simp
qed

lemma the_edition_strings_nonempty: "[] \<notin> set the_edition_strings"
  by (simp add: the_edition_strings_def asc_def)

lemma the_edition_strings_eq: "edition_suffixes = the_edition_strings"
  by (simp add: the_edition_strings_def edition_suffixes_def en_dash_def)

lemma the_markers_eq: "markers = the_markers"
  by (simp add: the_markers_def markers_def en_dash_def)

text \<open>
  What the models of \<open>str.split\<close> and \<open>str.strip\<close> compute: the pieces of a split
  are never none, hold no separator and join back to the string; stripping takes white
  space, and nothing else, off both ends, and what is left neither starts nor ends with
  white space.
\<close>

lemma py_split_nonempty: "py_split sep s \<noteq> []"
  by (induction s) (auto split: list.splits)

lemma py_split_no_sep: "w \<in> set (py_split sep s) \<Longrightarrow> sep \<notin> set w"
proof (induction s arbitrary: w)
  case Nil
  then show ?case by simp
next
  case (Cons c s)
  show ?case
  proof (cases "c = sep")
    case True
    with Cons show ?thesis by auto
  next
    case False
    obtain v vs where v: "py_split sep s = v # vs"
      using py_split_nonempty[of sep s] by (cases "py_split sep s") auto
    with False Cons.prems have "w = c # v \<or> w \<in> set vs" by auto
    with v Cons.IH False show ?thesis by auto
  qed
qed

lemma py_split_join: "py_join sep (py_split sep s) = s"
proof (induction s)
  case Nil
  then show ?case by simp
next
  case (Cons c s)
  obtain v vs where v: "py_split sep s = v # vs"
    using py_split_nonempty[of sep s] by (cases "py_split sep s") auto
  show ?case
  proof (cases "c = sep")
    case True
    with v Cons show ?thesis by simp
  next
    case False
    with v Cons show ?thesis by (cases vs) auto
  qed
qed

lemma py_strip_parts:
  "\<exists>l r. s = l @ py_strip s @ r \<and> list_all py_isspace l \<and> list_all py_isspace r"
proof -
  let ?l = "takeWhile py_isspace s"
  let ?m = "dropWhile py_isspace s"
  let ?r = "rev (takeWhile py_isspace (rev ?m))"
  have "s = ?l @ ?m" by simp
  moreover have "?m = py_strip s @ ?r"
  proof -
    have "rev (takeWhile py_isspace (rev ?m) @ dropWhile py_isspace (rev ?m)) = rev (rev ?m)"
      by (simp only: takeWhile_dropWhile_id)
    then have "rev (dropWhile py_isspace (rev ?m)) @ ?r = ?m"
      by (simp only: rev_append rev_rev_ident)
    then show ?thesis by (simp only: py_strip_def)
  qed
  moreover have "list_all py_isspace ?l" by (simp add: list_all_iff) (meson set_takeWhileD)
  moreover have "list_all py_isspace ?r" by (simp add: list_all_iff) (meson set_takeWhileD)
  ultimately have "s = ?l @ py_strip s @ ?r \<and> list_all py_isspace ?l \<and> list_all py_isspace ?r"
    by simp
  then show ?thesis by blast
qed

lemma py_strip_ends:
  "py_strip s \<noteq> [] \<Longrightarrow> \<not> py_isspace (hd (py_strip s)) \<and> \<not> py_isspace (last (py_strip s))"
proof -
  assume ne: "py_strip s \<noteq> []"
  let ?m = "dropWhile py_isspace s"
  let ?d = "dropWhile py_isspace (rev ?m)"
  from ne have d: "?d \<noteq> []" by (simp add: py_strip_def)
  then have "\<not> py_isspace (hd ?d)" using hd_dropWhile by blast
  then have l: "\<not> py_isspace (last (py_strip s))" using d by (simp add: py_strip_def last_rev)
  have m: "?m \<noteq> []"
  proof
    assume e: "?m = []"
    have "?d = []" unfolding e by simp
    with d show False by simp
  qed
  then have hm: "\<not> py_isspace (hd ?m)" using hd_dropWhile by blast
  have "rev (takeWhile py_isspace (rev ?m) @ ?d) = rev (rev ?m)"
    by (simp only: takeWhile_dropWhile_id)
  then have "?m = rev ?d @ rev (takeWhile py_isspace (rev ?m))"
    by (simp only: rev_append rev_rev_ident)
  with d have "hd ?m = hd (rev ?d)" by (metis hd_append2 rev_is_Nil_conv)
  with hm have "\<not> py_isspace (hd (py_strip s))" by (simp add: py_strip_def)
  with l show ?thesis by simp
qed

subsection \<open>Scorer\<close>

text \<open>
  C4, as stated, fails. With the edition suffixes stripped from the end of the name, as
  the claim words it, the name "Catan (Second Edition) Deluxe" keeps its text, does not
  match the query "Catan Deluxe" and scores 0. The code removes " (second edition)"
  from the middle of the lowered name, gets "catan deluxe" and scores 70.
\<close>

theorem C4_counterexample_mid_edition:
  "is_likely_primary ascii_lower name_mid_edition query_mid_edition = 70
   \<and> spec_score ascii_lower name_mid_edition query_mid_edition = 0"
proof (rule conjI)
  show "is_likely_primary ascii_lower name_mid_edition query_mid_edition = 70"
    by (simp add: is_likely_primary_def name_mid_edition_def query_mid_edition_def str_eval)
  show "spec_score ascii_lower name_mid_edition query_mid_edition = 0"
    by (simp add: spec_score_def spec_stripped_def strip_suffix_def name_mid_edition_def
        query_mid_edition_def the_markers_def the_edition_strings_def asc_def
        ascii_lower_def lower_char_def suffix_def flip: py_in_sublist)
qed

text \<open>
  C4, amended: for every name and query the score is the sum of three independent
  terms: 100 when the lowered name equals the lowered query, else 80 when it starts with
  it; - 50 when the lowered name contains one of the six markers; and 70 when the lowered
  query is a prefix of (or equal to) what is left of the lowered name after one
  left-to-right pass for each of the eight edition strings, in their order, each pass
  removing the occurrences of its string wherever they stand in the name.
\<close>

theorem C4_score_is_sum_of_rules:
  assumes "passes_remove the_edition_strings (lower name) stripped"
  shows "is_likely_primary lower name query =
     (if lower name = lower query then 100
      else if prefix (lower query) (lower name) then 80 else 0)
     + (if \<exists>m \<in> set the_markers. sublist m (lower name) then - 50 else 0)
     + (if prefix (lower query) stripped then 70 else 0)"
proof -
  from passes_remove_is_strip_loop[OF assms the_edition_strings_nonempty]
  have "stripped = strip_loop edition_suffixes (lower name)"
    by (simp add: the_edition_strings_eq)
  then show ?thesis
    by (simp add: is_likely_primary_def Let_def startswith_def list_ex_iff py_in_sublist
        the_markers_eq)
qed

text \<open>The passes always have a result, so the statement above speaks of every name.\<close>

lemma edition_strings_always_removable:
  "\<exists>stripped. passes_remove the_edition_strings (lower name) stripped"
  using strip_loop_is_passes_remove[OF the_edition_strings_nonempty] by blast

lemma passes_colon_edition:
  "passes_remove the_edition_strings (ascii_lower name_colon_edition) (asc ''catan deluxe'')"
proof -
  have "strip_loop the_edition_strings (ascii_lower name_colon_edition) = asc ''catan deluxe''"
    by (simp add: the_edition_strings_def name_colon_edition_def asc_def ascii_lower_def
        lower_char_def)
  with strip_loop_is_passes_remove[OF the_edition_strings_nonempty,
      of "ascii_lower name_colon_edition"]
  show ?thesis by simp
qed

text \<open>
  The amended statement at the name "Catan: 2nd Edition Deluxe" and the query
  "Catan Deluxe": nothing for the first rule, - 50 for the colon marker, and 70 because
  the pass for ": 2nd edition" leaves "catan deluxe".
\<close>

theorem C4_score_witness:
  "passes_remove the_edition_strings (ascii_lower name_colon_edition) (asc ''catan deluxe'')
   \<and> is_likely_primary ascii_lower name_colon_edition query_mid_edition = 20"
proof (rule conjI[OF passes_colon_edition])
  show "is_likely_primary ascii_lower name_colon_edition query_mid_edition = 20"
    using C4_score_is_sum_of_rules[where lower = ascii_lower and name = name_colon_edition
        and query = query_mid_edition, OF passes_colon_edition]
    by (simp add: name_colon_edition_def query_mid_edition_def the_markers_def asc_def
        ascii_lower_def lower_char_def flip: py_in_sublist)
qed

text \<open>
  One pass for each string, and no more: an edition string that comes together where
  another occurrence was removed stays in the name.
\<close>

lemma one_pass_for_each_string:
  "strip_loop edition_suffixes (asc ''x (second (second edition) edition)'')
     = asc ''x (second edition)''"
  by (simp add: edition_suffixes_def asc_def en_dash_def)

subsection \<open>Ranking and probing\<close>






lemma collect_items_filter_map:
  "collect_items lower src items q =
     map (\<lambda>it. \<lparr>sc_id = it_id it, sc_name = the (it_name it),
                 sc_score = is_likely_primary lower (the (it_name it)) q, sc_source = src\<rparr>)
       (filter (\<lambda>it. it_id it \<noteq> [] \<and> it_name it \<noteq> None \<and> it_name it \<noteq> Some []) items)"
  by (induction items) (auto split: option.splits)





subsection \<open>The order of the calls\<close>

lemma probe_trace: "\<exists>A. snd (probe W tr cs) = tr @ A \<and> list_all is_api_event A"
proof (induction cs arbitrary: tr)
  case Nil
  then show ?case by simp
next
  case (Cons c cs)
  show ?case
  proof (cases "w_api_thing W tr (sc_id c)")
    case None
    from Cons.IH[of "tr @ [ApiThing (sc_id c)]"] obtain A where
      "snd (probe W (tr @ [ApiThing (sc_id c)]) cs) = (tr @ [ApiThing (sc_id c)]) @ A"
      "list_all is_api_event A" by blast
    then have "snd (probe W tr (c # cs)) = tr @ (ApiThing (sc_id c) # A)
        \<and> list_all is_api_event (ApiThing (sc_id c) # A)"
      using None by (simp add: Let_def is_api_event_def)
    then show ?thesis by blast
  next
    case (Some d)
    then have "snd (probe W tr (c # cs)) = tr @ [ApiThing (sc_id c)]
       \<and> list_all is_api_event [ApiThing (sc_id c)]"
      by (simp add: Let_def is_api_event_def)
    then show ?thesis by blast
  qed
qed

lemma search_tier_trace:
  "\<exists>A. snd (search_tier W tr src q)
         = tr @ (case src of V2 \<Rightarrow> ApiSearchV2 q | V1 \<Rightarrow> ApiSearchV1 q) # A
       \<and> list_all is_api_event A"
proof -
  let ?ev = "case src of V2 \<Rightarrow> ApiSearchV2 q | V1 \<Rightarrow> ApiSearchV1 q"
  let ?resp = "case src of V2 \<Rightarrow> w_search_v2 W tr q | V1 \<Rightarrow> w_search_v1 W tr q"
  let ?cands = "\<lambda>body. case src of V2 \<Rightarrow> collect_from_api2 (w_lower W) body q
                             | V1 \<Rightarrow> collect_from_api1 (w_lower W) body q"
  have plain: "snd (search_tier W tr src q) = tr @ ?ev # [] \<and> list_all is_api_event []"
    if "snd (search_tier W tr src q) = tr @ [?ev]"
    using that by simp
  show ?thesis
  proof (cases ?resp)
    case (Inl e)
    then have "snd (search_tier W tr src q) = tr @ [?ev]"
      by (simp add: search_tier_def Let_def)
    from plain[OF this] show ?thesis by blast
  next
    case (Inr sb)
    obtain status body where sb: "sb = (status, body)" by (cases sb)
    show ?thesis
    proof (cases "status = 200 \<and> ?cands body \<noteq> []")
      case False
      with Inr sb have "snd (search_tier W tr src q) = tr @ [?ev]"
        by (auto simp: search_tier_def Let_def)
      from plain[OF this] show ?thesis by blast
    next
      case True
      with Inr sb have eq: "search_tier W tr src q
          = probe W (tr @ [?ev]) (sorted_by_score (?cands body))"
        by (simp add: search_tier_def Let_def)
      from probe_trace[of W "tr @ [?ev]" "sorted_by_score (?cands body)"] obtain B where
        "snd (probe W (tr @ [?ev]) (sorted_by_score (?cands body))) = (tr @ [?ev]) @ B"
        "list_all is_api_event B" by blast
      with eq have "snd (search_tier W tr src q) = tr @ ?ev # B \<and> list_all is_api_event B"
        by simp
      then show ?thesis by blast
    qed
  qed
qed

lemma bgg_search_api_by_name_trace:
  "\<exists>A. snd (bgg_search_api_by_name W tr q) = tr @ ApiSearchV2 q # A \<and> list_all is_api_event A"
proof -
  obtain r tr1 where t: "search_tier W tr V2 q = (r, tr1)" by (cases "search_tier W tr V2 q")
  obtain A where A: "tr1 = tr @ ApiSearchV2 q # A" "list_all is_api_event A"
    using search_tier_trace[of W tr V2 q] t by auto
  show ?thesis
  proof (cases r)
    case (Some g)
    with t have "snd (bgg_search_api_by_name W tr q) = tr1"
      by (simp add: bgg_search_api_by_name_def)
    with A show ?thesis by blast
  next
    case None
    with t have eq: "snd (bgg_search_api_by_name W tr q) = snd (search_tier W tr1 V1 q)"
      by (simp add: bgg_search_api_by_name_def)
    obtain B where B: "snd (search_tier W tr1 V1 q) = tr1 @ ApiSearchV1 q # B"
      "list_all is_api_event B"
      using search_tier_trace[of W tr1 V1 q] by auto
    from eq A B have "snd (bgg_search_api_by_name W tr q)
         = tr @ ApiSearchV2 q # (A @ ApiSearchV1 q # B)
       \<and> list_all is_api_event (A @ ApiSearchV1 q # B)"
      by (simp add: is_api_event_def)
    then show ?thesis by blast
  qed
qed

lemma api_loop_step_found:
  assumes "bgg_search_api_by_name W tr q = (Some g, tr1)" "g \<noteq> []"
    "w_api_thing W tr1 g = Some d"
  shows "api_loop W tr (q # cs) = (Some (q, d), tr1 @ [ApiThing g])"
  using assms by simp

lemma api_loop_step_detail_failed:
  assumes "bgg_search_api_by_name W tr q = (Some g, tr1)" "g \<noteq> []"
    "w_api_thing W tr1 g = None"
  shows "api_loop W tr (q # cs) = api_loop W (tr1 @ [ApiThing g]) cs"
  using assms by simp

lemma api_loop_step_skip:
  assumes "bgg_search_api_by_name W tr q = (r, tr1)" "r = None \<or> r = Some []"
  shows "api_loop W tr (q # cs) = api_loop W tr1 cs"
  using assms by auto

declare api_loop.simps [simp del]

lemma api_loop_continue:
  assumes IH: "\<And>tr. \<exists>A. snd (api_loop W tr cs) = tr @ A \<and> list_all is_api_event A
      \<and> (fst (api_loop W tr cs) = None \<longrightarrow> (\<forall>q \<in> set cs. ApiSearchV2 q \<in> set A))"
    and eq: "api_loop W tr (q # cs) = api_loop W (tr @ ApiSearchV2 q # B) cs"
    and B: "list_all is_api_event B"
  shows "\<exists>A'. snd (api_loop W tr (q # cs)) = tr @ A' \<and> list_all is_api_event A'
      \<and> (fst (api_loop W tr (q # cs)) = None \<longrightarrow> (\<forall>q' \<in> set (q # cs). ApiSearchV2 q' \<in> set A'))"
proof -
  from IH[of "tr @ ApiSearchV2 q # B"] obtain C where
    C: "snd (api_loop W (tr @ ApiSearchV2 q # B) cs) = (tr @ ApiSearchV2 q # B) @ C
      \<and> list_all is_api_event C
      \<and> (fst (api_loop W (tr @ ApiSearchV2 q # B) cs) = None
           \<longrightarrow> (\<forall>q \<in> set cs. ApiSearchV2 q \<in> set C))" ..
  from C have C1: "snd (api_loop W (tr @ ApiSearchV2 q # B) cs) = (tr @ ApiSearchV2 q # B) @ C"
    by (rule conjunct1)
  from C have C2: "list_all is_api_event C" by (rule conjunct2 [THEN conjunct1])
  from C have C3: "fst (api_loop W (tr @ ApiSearchV2 q # B) cs) = None
           \<longrightarrow> (\<forall>q \<in> set cs. ApiSearchV2 q \<in> set C)"
    by (rule conjunct2 [THEN conjunct2])
  let ?A' = "ApiSearchV2 q # B @ C"
  have 1: "snd (api_loop W tr (q # cs)) = tr @ ?A'" unfolding eq using C1 by simp
  have "is_api_event (ApiSearchV2 q)" by (simp add: is_api_event_def)
  then have 2: "list_all is_api_event ?A'" using B C2 by simp
  have 3: "fst (api_loop W tr (q # cs)) = None \<longrightarrow> (\<forall>q' \<in> set (q # cs). ApiSearchV2 q' \<in> set ?A')"
    unfolding eq using C3 by auto
  from 1 2 3 show ?thesis by (intro exI[of _ ?A'] conjI)
qed


lemma api_loop_trace:
  "\<exists>A. snd (api_loop W tr cs) = tr @ A \<and> list_all is_api_event A
      \<and> (fst (api_loop W tr cs) = None \<longrightarrow> (\<forall>q \<in> set cs. ApiSearchV2 q \<in> set A))"
proof (induction cs arbitrary: tr)
  case Nil
  have "snd (api_loop W tr []) = tr @ [] \<and> list_all is_api_event []
      \<and> (fst (api_loop W tr []) = None \<longrightarrow> (\<forall>q \<in> set []. ApiSearchV2 q \<in> set []))"
    by (simp add: api_loop.simps)
  then show ?case by (rule exI)
next
  case (Cons q cs)
  obtain r tr1 where s: "bgg_search_api_by_name W tr q = (r, tr1)"
    by (cases "bgg_search_api_by_name W tr q")
  from bgg_search_api_by_name_trace[of W tr q] obtain A where
    A: "snd (bgg_search_api_by_name W tr q) = tr @ ApiSearchV2 q # A \<and> list_all is_api_event A" ..
  from A s have tr1: "tr1 = tr @ ApiSearchV2 q # A" by simp
  from A have apiA: "list_all is_api_event A" by (rule conjunct2)
  show ?case
  proof (cases "r = None \<or> r = Some []")
    case True
    from api_loop_step_skip[OF s True]
    have "api_loop W tr (q # cs) = api_loop W (tr @ ApiSearchV2 q # A) cs"
      unfolding tr1 .
    from api_loop_continue[of W cs tr q A, OF Cons.IH this apiA] show ?thesis .
  next
    case False
    then obtain g where g: "r = Some g" "g \<noteq> []" by (cases r) auto
    have apiAg: "list_all is_api_event (A @ [ApiThing g])"
      using apiA by (simp add: is_api_event_def)
    show ?thesis
    proof (cases "w_api_thing W tr1 g")
      case None
      from api_loop_step_detail_failed[OF s[unfolded g(1)] g(2) None]
      have "api_loop W tr (q # cs) = api_loop W (tr @ ApiSearchV2 q # (A @ [ApiThing g])) cs"
        unfolding tr1 by simp
      from api_loop_continue[of W cs tr q "A @ [ApiThing g]", OF Cons.IH this apiAg]
      show ?thesis .
    next
      case (Some d)
      from api_loop_step_found[OF s[unfolded g(1)] g(2) Some]
      have eq: "api_loop W tr (q # cs) = (Some (q, d), tr1 @ [ApiThing g])" .
      let ?A' = "ApiSearchV2 q # A @ [ApiThing g]"
      have "is_api_event (ApiSearchV2 q)" by (simp add: is_api_event_def)
      then have "snd (api_loop W tr (q # cs)) = tr @ ?A' \<and> list_all is_api_event ?A'
        \<and> (fst (api_loop W tr (q # cs)) = None
             \<longrightarrow> (\<forall>q' \<in> set (q # cs). ApiSearchV2 q' \<in> set ?A'))"
        unfolding eq using apiAg tr1 by simp
      then show ?thesis by (rule exI)
    qed
  qed
qed

lemma bgg_search_by_name_trace: "snd (bgg_search_by_name W tr q) = tr @ [WebSearch q]"
  by (simp add: bgg_search_by_name_def Let_def split: sum.splits option.splits prod.splits)

lemma hit_at_0: "hit_at W tr (q # cs) 0 = (fst (bgg_search_by_name W tr q) \<noteq> None)"
  by (simp add: hit_at_def)

lemma hit_at_Suc: "hit_at W tr (q # cs) (Suc i) = hit_at W (tr @ [WebSearch q]) cs i"
  by (simp add: hit_at_def)

lemma scrape_loop_None:
  "fst (scrape_loop W tr cs) = None \<Longrightarrow>
     snd (scrape_loop W tr cs) = tr @ map WebSearch cs \<and> (\<forall>i<length cs. \<not> hit_at W tr cs i)"
proof (induction cs arbitrary: tr)
  case Nil
  then show ?case by simp
next
  case (Cons q cs)
  obtain r tr1 where s: "bgg_search_by_name W tr q = (r, tr1)" by (cases "bgg_search_by_name W tr q")
  with bgg_search_by_name_trace[of W tr q] have tr1: "tr1 = tr @ [WebSearch q]" by simp
  from Cons.prems s have r: "r = None" by (cases r) auto
  with s tr1 have eq: "scrape_loop W tr (q # cs) = scrape_loop W (tr @ [WebSearch q]) cs" by simp
  with Cons.prems have "fst (scrape_loop W (tr @ [WebSearch q]) cs) = None" by simp
  from Cons.IH[OF this] have ih: "snd (scrape_loop W (tr @ [WebSearch q]) cs) = (tr @ [WebSearch q]) @ map WebSearch cs"
    "\<forall>i<length cs. \<not> hit_at W (tr @ [WebSearch q]) cs i" by auto
  have "\<not> hit_at W tr (q # cs) i" if "i < length (q # cs)" for i
  proof (cases i)
    case 0
    then show ?thesis using s r by (simp add: hit_at_0)
  next
    case (Suc j)
    then show ?thesis using ih(2) that by (simp add: hit_at_Suc)
  qed
  then show ?case using eq ih(1) by simp
qed

lemma scrape_loop_Some:
  "fst (scrape_loop W tr cs) = Some (h, q) \<Longrightarrow>
     \<exists>i<length cs. q = cs ! i \<and> hit_at W tr cs i \<and> (\<forall>j<i. \<not> hit_at W tr cs j)
       \<and> fst (bgg_search_by_name W (tr @ map WebSearch (take i cs)) q) = Some h
       \<and> snd (scrape_loop W tr cs) = tr @ map WebSearch (take (Suc i) cs)"
proof (induction cs arbitrary: tr)
  case Nil
  then show ?case by simp
next
  case (Cons c cs)
  obtain r tr1 where s: "bgg_search_by_name W tr c = (r, tr1)" by (cases "bgg_search_by_name W tr c")
  with bgg_search_by_name_trace[of W tr c] have tr1: "tr1 = tr @ [WebSearch c]" by simp
  show ?case
  proof (cases r)
    case (Some h')
    with s tr1 Cons.prems have "h' = h" "q = c" "snd (scrape_loop W tr (c # cs)) = tr @ [WebSearch c]"
      by auto
    with s Some have "0 < length (c # cs) \<and> q = (c # cs) ! 0 \<and> hit_at W tr (c # cs) 0
       \<and> (\<forall>j<0. \<not> hit_at W tr (c # cs) j)
       \<and> fst (bgg_search_by_name W (tr @ map WebSearch (take 0 (c # cs))) q) = Some h
       \<and> snd (scrape_loop W tr (c # cs)) = tr @ map WebSearch (take (Suc 0) (c # cs))"
      by (simp add: hit_at_0)
    then show ?thesis by blast
  next
    case None
    with s tr1 have eq: "scrape_loop W tr (c # cs) = scrape_loop W (tr @ [WebSearch c]) cs" by simp
    with Cons.prems have "fst (scrape_loop W (tr @ [WebSearch c]) cs) = Some (h, q)" by simp
    from Cons.IH[OF this] obtain i where i: "i < length cs" "q = cs ! i"
      "hit_at W (tr @ [WebSearch c]) cs i" "\<forall>j<i. \<not> hit_at W (tr @ [WebSearch c]) cs j"
      "fst (bgg_search_by_name W ((tr @ [WebSearch c]) @ map WebSearch (take i cs)) q) = Some h"
      "snd (scrape_loop W (tr @ [WebSearch c]) cs) = (tr @ [WebSearch c]) @ map WebSearch (take (Suc i) cs)"
      by blast
    have "\<not> hit_at W tr (c # cs) j" if "j < Suc i" for j
    proof (cases j)
      case 0
      then show ?thesis using s None by (simp add: hit_at_0)
    next
      case (Suc k)
      then show ?thesis using i(4) that by (simp add: hit_at_Suc)
    qed
    with i eq have "Suc i < length (c # cs) \<and> q = (c # cs) ! Suc i \<and> hit_at W tr (c # cs) (Suc i)
       \<and> (\<forall>j<Suc i. \<not> hit_at W tr (c # cs) j)
       \<and> fst (bgg_search_by_name W (tr @ map WebSearch (take (Suc i) (c # cs))) q) = Some h
       \<and> snd (scrape_loop W tr (c # cs)) = tr @ map WebSearch (take (Suc (Suc i)) (c # cs))"
      by (simp add: hit_at_Suc)
    then show ?thesis by blast
  qed
qed

lemma resolve_candidates_trace:
  "\<exists>A n D. snd (resolve_candidates W tr cs en fa) = tr @ A @ map WebSearch (take n cs) @ D
     \<and> list_all is_api_event A \<and> n \<le> length cs
     \<and> (0 < n \<longrightarrow> fst (api_loop W tr cs) = None \<and> (\<forall>q \<in> set cs. ApiSearchV2 q \<in> set A))
     \<and> (\<forall>i. Suc i < n \<longrightarrow> \<not> hit_at W (tr @ A) cs i)
     \<and> (n < length cs \<longrightarrow> n = 0 \<or> hit_at W (tr @ A) cs (n - 1))
     \<and> (D = [] \<or> (\<exists>url. D = [WebDetail url] \<and> 0 < n \<and> hit_at W (tr @ A) cs (n - 1)))"
proof -
  obtain r1 tr1 where a: "api_loop W tr cs = (r1, tr1)" by (cases "api_loop W tr cs")
  from api_loop_trace[of W tr cs] obtain A where
    A: "snd (api_loop W tr cs) = tr @ A \<and> list_all is_api_event A
      \<and> (fst (api_loop W tr cs) = None \<longrightarrow> (\<forall>q \<in> set cs. ApiSearchV2 q \<in> set A))" ..
  from A a have tr1: "tr1 = tr @ A" by simp
  from A have apiA: "list_all is_api_event A" by simp
  from A a have allA: "r1 = None \<longrightarrow> (\<forall>q \<in> set cs. ApiSearchV2 q \<in> set A)" by simp
  let ?P = "\<lambda>A n D. snd (resolve_candidates W tr cs en fa) = tr @ A @ map WebSearch (take n cs) @ D
     \<and> list_all is_api_event A \<and> n \<le> length cs
     \<and> (0 < n \<longrightarrow> fst (api_loop W tr cs) = None \<and> (\<forall>q \<in> set cs. ApiSearchV2 q \<in> set A))
     \<and> (\<forall>i. Suc i < n \<longrightarrow> \<not> hit_at W (tr @ A) cs i)
     \<and> (n < length cs \<longrightarrow> n = 0 \<or> hit_at W (tr @ A) cs (n - 1))
     \<and> (D = [] \<or> (\<exists>url. D = [WebDetail url] \<and> 0 < n \<and> hit_at W (tr @ A) cs (n - 1)))"
  show ?thesis
  proof (cases r1)
    case (Some qd)
    obtain q d where qd: "qd = (q, d)" by (cases qd)
    from a Some qd have "snd (resolve_candidates W tr cs en fa) = tr1"
      by (simp add: resolve_candidates_def Let_def)
    with tr1 apiA have "?P A 0 []" by simp
    then show ?thesis by blast
  next
    case None
    with allA have allA': "\<forall>q \<in> set cs. ApiSearchV2 q \<in> set A" by simp
    from a None have apiNone: "fst (api_loop W tr cs) = None" by simp
    obtain r2 tr2 where sc: "scrape_loop W tr1 cs = (r2, tr2)" by (cases "scrape_loop W tr1 cs")
    show ?thesis
    proof (cases r2)
      case None
      with sc have "fst (scrape_loop W tr1 cs) = None" by simp
      from scrape_loop_None[OF this] sc have tr2: "tr2 = tr1 @ map WebSearch cs"
        and nohit: "\<forall>i<length cs. \<not> hit_at W tr1 cs i" by simp_all
      from a \<open>r1 = None\<close> sc None have "snd (resolve_candidates W tr cs en fa) = tr2"
        by (simp add: resolve_candidates_def Let_def)
      with tr2 tr1 apiA allA' apiNone nohit have "?P A (length cs) []" by simp
      then show ?thesis by blast
    next
      case (Some hq)
      obtain h q where hq: "hq = (h, q)" by (cases hq)
      with sc Some have "fst (scrape_loop W tr1 cs) = Some (h, q)" by simp
      from scrape_loop_Some[OF this] obtain i where i: "i < length cs" "hit_at W tr1 cs i"
        "\<forall>j<i. \<not> hit_at W tr1 cs j"
        "snd (scrape_loop W tr1 cs) = tr1 @ map WebSearch (take (Suc i) cs)" by blast
      from i(4) sc have tr2: "tr2 = tr1 @ map WebSearch (take (Suc i) cs)" by simp
      from a \<open>r1 = None\<close> sc Some hq
      have "snd (resolve_candidates W tr cs en fa) = tr2 @ [WebDetail (h_url h)]"
        by (simp add: resolve_candidates_def Let_def split: option.splits)
      with tr2 tr1 apiA allA' apiNone i(1,2,3) have "?P A (Suc i) [WebDetail (h_url h)]"
        by simp
      then show ?thesis by blast
    qed
  qed
qed

lemma fetch_trace:
  "list_all is_extractor_event (snd (fetch_english_candidates_from_ddg W [] kw))"
  by (simp add: fetch_english_candidates_from_ddg_def Let_def is_extractor_event_def
      split: sum.splits option.splits prod.splits)

lemma extract_candidates_trace:
  "list_all is_extractor_event (snd (extract_candidates W cn))"
proof -
  obtain r tr where f: "fetch_english_candidates_from_ddg W [] (cn @ board_game_suffix) = (r, tr)"
    by (cases "fetch_english_candidates_from_ddg W [] (cn @ board_game_suffix)")
  with fetch_trace[of W "cn @ board_game_suffix"] have "list_all is_extractor_event tr" by simp
  with f show ?thesis
    by (simp add: extract_candidates_def Let_def split: sum.splits ddg_return.splits)
qed

text \<open>The runs of the concrete worlds.\<close>

lemmas run_eval = resolve_boardgame_by_cn_name_def extract_candidates_def alias_candidates_def
  py_strip_def py_isspace_def resolve_candidates_def api_loop.simps bgg_search_api_by_name_def
  search_tier_def bgg_search_by_name_def name_source_of_def Let_def ascii_isdigit_def
  BGG_BASE_URL_def

lemma extract_down:
  "extract_candidates world_down query_catan = (Inr ([asc ''Catan''], query_catan, True), [])"
  by (simp add: run_eval world_down_def query_catan_def asc_def)



text \<open>
  C3: the calls of a resolver run are, in this order, the calls of the extraction, the
  calls of the structured API, the scraping searches and at most one scraping detail
  request. When there is a scraping search at all, the structured loop has ended without
  a usable detail record and has sent the primary search of every candidate before. The
  scraping searches go to the candidates in order, none after the first hit, and they
  stop before the last candidate only at a hit; the detail request, if any, follows a
  hit, and no scraping search follows it.
\<close>

theorem C3_scraping_only_after_api_exhausted:
  assumes "extract_candidates W cn = (Inr (cs, en, fa), E)"
  shows "\<exists>A n D. snd (resolve_boardgame_by_cn_name W cn) = E @ A @ map WebSearch (take n cs) @ D
     \<and> list_all is_extractor_event E \<and> list_all is_api_event A \<and> n \<le> length cs
     \<and> (0 < n \<longrightarrow> fst (api_loop W E cs) = None \<and> (\<forall>q \<in> set cs. ApiSearchV2 q \<in> set A))
     \<and> (\<forall>i. Suc i < n \<longrightarrow> \<not> hit_at W (E @ A) cs i)
     \<and> (n < length cs \<longrightarrow> n = 0 \<or> hit_at W (E @ A) cs (n - 1))
     \<and> (D = [] \<or> (\<exists>url. D = [WebDetail url] \<and> 0 < n \<and> hit_at W (E @ A) cs (n - 1)))"
proof -
  from extract_candidates_trace[of W cn] assms have E: "list_all is_extractor_event E" by simp
  show ?thesis
  proof (cases "cs = []")
    case True
    with assms have "snd (resolve_boardgame_by_cn_name W cn) = E"
      by (simp add: resolve_boardgame_by_cn_name_def)
    with True E have "snd (resolve_boardgame_by_cn_name W cn) = E @ [] @ map WebSearch (take 0 cs) @ []
     \<and> list_all is_extractor_event E \<and> list_all is_api_event [] \<and> 0 \<le> length cs
     \<and> (0 < (0::nat) \<longrightarrow> fst (api_loop W E cs) = None \<and> (\<forall>q \<in> set cs. ApiSearchV2 q \<in> set []))
     \<and> (\<forall>i. Suc i < 0 \<longrightarrow> \<not> hit_at W (E @ []) cs i)
     \<and> (0 < length cs \<longrightarrow> (0::nat) = 0 \<or> hit_at W (E @ []) cs (0 - 1))
     \<and> ([] = [] \<or> (\<exists>url. [] = [WebDetail url] \<and> 0 < (0::nat) \<and> hit_at W (E @ []) cs (0 - 1)))"
      by simp
    then show ?thesis by (intro exI)
  next
    case False
    with assms have eq: "snd (resolve_boardgame_by_cn_name W cn) = snd (resolve_candidates W E cs en fa)"
      by (simp add: resolve_boardgame_by_cn_name_def split: prod.splits)
    from resolve_candidates_trace[of W E cs en fa] obtain A n D where
      "snd (resolve_candidates W E cs en fa) = E @ A @ map WebSearch (take n cs) @ D
     \<and> list_all is_api_event A \<and> n \<le> length cs
     \<and> (0 < n \<longrightarrow> fst (api_loop W E cs) = None \<and> (\<forall>q \<in> set cs. ApiSearchV2 q \<in> set A))
     \<and> (\<forall>i. Suc i < n \<longrightarrow> \<not> hit_at W (E @ A) cs i)
     \<and> (n < length cs \<longrightarrow> n = 0 \<or> hit_at W (E @ A) cs (n - 1))
     \<and> (D = [] \<or> (\<exists>url. D = [WebDetail url] \<and> 0 < n \<and> hit_at W (E @ A) cs (n - 1)))"
      by (elim exE)
    with eq E have "snd (resolve_boardgame_by_cn_name W cn) = E @ A @ map WebSearch (take n cs) @ D
     \<and> list_all is_extractor_event E \<and> list_all is_api_event A \<and> n \<le> length cs
     \<and> (0 < n \<longrightarrow> fst (api_loop W E cs) = None \<and> (\<forall>q \<in> set cs. ApiSearchV2 q \<in> set A))
     \<and> (\<forall>i. Suc i < n \<longrightarrow> \<not> hit_at W (E @ A) cs i)
     \<and> (n < length cs \<longrightarrow> n = 0 \<or> hit_at W (E @ A) cs (n - 1))
     \<and> (D = [] \<or> (\<exists>url. D = [WebDetail url] \<and> 0 < n \<and> hit_at W (E @ A) cs (n - 1)))"
      by simp
    then show ?thesis by (intro exI)
  qed
qed

text \<open>
  The statement in the world where the structured API is out of reach: the extraction
  gives the one candidate of the dictionary, and the run has the shape stated.
\<close>

theorem C3_witness:
  "extract_candidates world_down query_catan = (Inr ([asc ''Catan''], query_catan, True), [])
   \<and> (\<exists>A n D. snd (resolve_boardgame_by_cn_name world_down query_catan)
         = [] @ A @ map WebSearch (take n [asc ''Catan'']) @ D
     \<and> list_all is_extractor_event [] \<and> list_all is_api_event A \<and> n \<le> length [asc ''Catan'']
     \<and> (0 < n \<longrightarrow> fst (api_loop world_down [] [asc ''Catan'']) = None
            \<and> (\<forall>q \<in> set [asc ''Catan'']. ApiSearchV2 q \<in> set A))
     \<and> (\<forall>i. Suc i < n \<longrightarrow> \<not> hit_at world_down ([] @ A) [asc ''Catan''] i)
     \<and> (n < length [asc ''Catan''] \<longrightarrow> n = 0 \<or> hit_at world_down ([] @ A) [asc ''Catan''] (n - 1))
     \<and> (D = [] \<or> (\<exists>url. D = [WebDetail url] \<and> 0 < n
            \<and> hit_at world_down ([] @ A) [asc ''Catan''] (n - 1))))"
  by (rule conjI[OF extract_down C3_scraping_only_after_api_exhausted[OF extract_down]])

subsection \<open>Candidates\<close>

lemma api_not_extractor: "is_api_event e \<Longrightarrow> \<not> is_extractor_event e"
  by (cases e) (simp_all add: is_api_event_def is_extractor_event_def)

lemma list_all_api_not_extractor:
  "list_all is_api_event A \<Longrightarrow> \<not> list_ex is_extractor_event A"
  by (induction A) (auto simp: api_not_extractor)







lemma world_down_entry: "w_alias world_down query_catan = Some (asc ''Catan'')"
  by (simp add: world_down_def)

lemma catan_segments:
  "[asc ''Catan''] = filter (\<lambda>c. c \<noteq> []) (map py_strip (py_split 124 (py_strip (asc ''Catan''))))"
  by (simp add: py_strip_def py_isspace_def asc_def)

text \<open>
  C1, as stated, fails. The entry "|" is a non-empty string, yet it gives no candidate
  and the web search is called. The entry "Catan|" splits into "Catan" and the empty
  segment, and the candidates are "Catan" alone.
\<close>

theorem C1_counterexample_bare_separator:
  "w_alias world_bar query_catan = Some (asc ''|'')
   \<and> snd (extract_candidates world_bar query_catan)
       = [DdgsText (query_catan @ board_game_suffix @ question_suffix)]
   \<and> w_alias world_trailing_bar query_catan = Some (asc ''Catan|'')
   \<and> map py_strip (py_split 124 (py_strip (asc ''Catan|''))) = [asc ''Catan'', []]
   \<and> fst (extract_candidates world_trailing_bar query_catan)
       = Inr ([asc ''Catan''], query_catan, True)"
  by (simp add: world_bar_def world_trailing_bar_def world_down_def extract_candidates_def
      alias_candidates_def fetch_english_candidates_from_ddg_def py_strip_def py_isspace_def
      asc_def Let_def)

text \<open>
  C1, amended: for every query whose dictionary entry, trimmed and split at "|", has at
  least one segment that is not blank, the candidates are exactly the trimmed segments
  that are not empty, in their order, with \<open>from_alias\<close> true and \<open>extracted_cn_name\<close>
  the query, and no call of the web search or of the language model service is made,
  neither by the extraction nor later in the run.
\<close>

theorem C1_dictionary_entry_short_circuits:
  assumes entry: "w_alias W cn = Some entry"
    and seg: "segments = filter (\<lambda>c. c \<noteq> []) (map py_strip (py_split 124 (py_strip entry)))"
    and ne: "segments \<noteq> []"
  shows "extract_candidates W cn = (Inr (segments, cn, True), [])
     \<and> \<not> list_ex is_extractor_event (snd (resolve_boardgame_by_cn_name W cn))"
proof -
  have raw: "py_strip entry \<noteq> []"
  proof
    assume e: "py_strip entry = []"
    with seg have "segments = filter (\<lambda>c. c \<noteq> []) (map py_strip (py_split 124 []))"
      by simp
    then have "segments = []" by (simp add: py_strip_def)
    with ne show False by simp
  qed
  from entry seg ne raw have ex: "extract_candidates W cn = (Inr (segments, cn, True), [])"
    by (simp add: extract_candidates_def alias_candidates_def Let_def)
  with ne have run: "snd (resolve_boardgame_by_cn_name W cn)
      = snd (resolve_candidates W [] segments cn True)"
    by (simp add: resolve_boardgame_by_cn_name_def split: prod.splits)
  from resolve_candidates_trace[of W "[]" segments cn True] obtain A n D where
    sh: "snd (resolve_candidates W [] segments cn True) = [] @ A @ map WebSearch (take n segments) @ D
     \<and> list_all is_api_event A \<and> n \<le> length segments
     \<and> (0 < n \<longrightarrow> fst (api_loop W [] segments) = None \<and> (\<forall>q \<in> set segments. ApiSearchV2 q \<in> set A))
     \<and> (\<forall>i. Suc i < n \<longrightarrow> \<not> hit_at W ([] @ A) segments i)
     \<and> (n < length segments \<longrightarrow> n = 0 \<or> hit_at W ([] @ A) segments (n - 1))
     \<and> (D = [] \<or> (\<exists>url. D = [WebDetail url] \<and> 0 < n \<and> hit_at W ([] @ A) segments (n - 1)))"
    by (elim exE)
  from sh have tr: "snd (resolve_candidates W [] segments cn True) = A @ map WebSearch (take n segments) @ D"
    by simp
  from sh have A: "\<not> list_ex is_extractor_event A" by (simp add: list_all_api_not_extractor)
  have S: "\<not> list_ex is_extractor_event (map WebSearch (take n segments))"
    by (simp add: list_ex_iff is_extractor_event_def)
  from sh have D: "\<not> list_ex is_extractor_event D"
    by (auto simp: is_extractor_event_def)
  from A S D tr run have "\<not> list_ex is_extractor_event (snd (resolve_boardgame_by_cn_name W cn))"
    by (auto simp: list_ex_iff)
  with ex show ?thesis by simp
qed

text \<open>The statement for the entry "Catan" of the Chinese name of Catan.\<close>

theorem C1_witness:
  "w_alias world_down query_catan = Some (asc ''Catan'')
   \<and> extract_candidates world_down query_catan = (Inr ([asc ''Catan''], query_catan, True), [])
   \<and> \<not> list_ex is_extractor_event (snd (resolve_boardgame_by_cn_name world_down query_catan))"
  using C1_dictionary_entry_short_circuits[OF world_down_entry catan_segments] world_down_entry
  by simp

subsection \<open>Extraction errors\<close>

lemma prefixes_exclusive: "startswith line cn_prefix \<Longrightarrow> \<not> startswith line en_prefix"
  by (auto simp: startswith_def cn_prefix_def en_prefix_def prefix_def)

text \<open>The candidates of the loop over the lines are the names of the lines that survive.\<close>

lemma parse_loop_candidates:
  "snd (parse_loop lower lines (cn, acc))
     = acc @ map english_name_of (filter (survives lower) lines)"
proof (induction lines arbitrary: cn acc)
  case Nil
  then show ?case by simp
next
  case (Cons l lines)
  show ?case
  proof (cases "startswith l cn_prefix")
    case True
    with prefixes_exclusive[OF True] Cons.IH show ?thesis by (simp add: survives_def)
  next
    case False
    with Cons.IH show ?thesis
      by (simp add: survives_def english_name_of_def keep_en_name_def Let_def)
  qed
qed

lemma no_alias_extract_Inl:
  assumes "alias_candidates (py_strip (case w_alias W cn of None \<Rightarrow> [] | Some v \<Rightarrow> v)) = []"
    and "fetch_english_candidates_from_ddg W [] (cn @ board_game_suffix) = (Inl e, tr)"
  shows "extract_candidates W cn = (Inl e, tr)"
  using assms by (simp add: extract_candidates_def Let_def)

lemma no_alias_extract_bare:
  assumes "alias_candidates (py_strip (case w_alias W cn of None \<Rightarrow> [] | Some v \<Rightarrow> v)) = []"
    and "fetch_english_candidates_from_ddg W [] (cn @ board_game_suffix)
           = (Inr Bare_empty_list, tr)"
  shows "extract_candidates W cn = (Inl ValueError_unpack, tr)"
  using assms by (simp add: extract_candidates_def Let_def)

lemmas world_eval = world_llm_down_def world_no_models_def world_embedding_def
  world_replay_first_def world_generic_answer_def world_offline_def world_down_def

lemma select_utils: "select_model [(asc ''utils'', 5)] = Some 5"
  by (simp add: select_model_def asc_def)

lemma fetch_llm_down:
  "fetch_english_candidates_from_ddg world_llm_down [] (query_catan @ board_game_suffix)
     = (Inl ValueError_llm_failed,
        [DdgsText catan_search_query, GetAvailableModels, GenerateWithModel 5])"
  by (simp add: fetch_english_candidates_from_ddg_def world_eval select_model_def asc_def
      catan_search_query_def Let_def)

text \<open>
  C2, as stated, fails. When the generation reports failure, the resolver does not
  return None: the \<open>ValueError\<close> of the extractor leaves it.
\<close>

theorem C2_counterexample_llm_failure_raises:
  "fst (resolve_boardgame_by_cn_name world_llm_down query_catan) = Inl ValueError_llm_failed"
proof -
  have "alias_candidates (py_strip (case w_alias world_llm_down query_catan of
      None \<Rightarrow> [] | Some v \<Rightarrow> v)) = []"
    by (simp add: world_eval alias_candidates_def py_strip_def)
  from no_alias_extract_Inl[OF this fetch_llm_down] show ?thesis
    by (simp add: resolve_boardgame_by_cn_name_def)
qed

text \<open>
  C2, amended: when the dictionary gives no candidate and the extraction fails, because
  the generation does not succeed or returns blank text, or because no English name of
  the answer survives the filter, the resolver does not catch the error: the run ends
  with that exception, after the calls of the extraction and no other, and the caller
  receives the exception and no value.
\<close>

theorem C2_extraction_errors_reach_the_caller:
  assumes no_alias:
      "alias_candidates (py_strip (case w_alias W cn of None \<Rightarrow> [] | Some v \<Rightarrow> v)) = []"
    and sq: "sq = cn @ board_game_suffix @ question_suffix"
    and ddgs: "w_ddgs W [] sq = Inr results"
    and models: "w_models W [DdgsText sq] = Inr models"
    and sel: "select_model models = Some mc"
    and gen: "w_generate W [DdgsText sq, GetAvailableModels] mc = Inr (success, resp)"
    and T: "T = [DdgsText sq, GetAvailableModels, GenerateWithModel mc]"
  shows "(\<not> success \<or> py_strip resp = []
            \<longrightarrow> resolve_boardgame_by_cn_name W cn = (Inl ValueError_llm_failed, T))
       \<and> (success \<and> py_strip resp \<noteq> []
            \<and> \<not> (\<exists>line \<in> set (response_lines resp). survives (w_lower W) line)
            \<longrightarrow> resolve_boardgame_by_cn_name W cn = (Inl ValueError_no_english_name, T))"
proof -
  from sel have ne: "models \<noteq> []" by (auto simp: select_model_def)
  have strip_nil: "py_strip [] = []" by (simp add: py_strip_def)
  have 1: "fetch_english_candidates_from_ddg W [] (cn @ board_game_suffix)
             = (Inl ValueError_llm_failed, T)"
    if "\<not> success \<or> py_strip resp = []"
    using that sq ddgs models sel gen T ne strip_nil
    by (auto simp: fetch_english_candidates_from_ddg_def Let_def)
  have 2: "fetch_english_candidates_from_ddg W [] (cn @ board_game_suffix)
             = (Inl ValueError_no_english_name, T)"
    if "success" "py_strip resp \<noteq> []"
      "\<not> (\<exists>line \<in> set (response_lines resp). survives (w_lower W) line)"
  proof -
    from that(3) have "filter (survives (w_lower W)) (response_lines resp) = []"
      by (simp add: filter_empty_conv)
    with parse_loop_candidates[of "w_lower W" "response_lines resp" "[]" "[]"]
    have "snd (parse_loop (w_lower W) (response_lines resp) ([], [])) = []" by simp
    moreover from that(2) strip_nil have "resp \<noteq> []" by auto
    ultimately show ?thesis
      using that(1,2) sq ddgs models sel gen T ne
      by (auto simp: fetch_english_candidates_from_ddg_def Let_def split: prod.splits)
  qed
  have r1: "resolve_boardgame_by_cn_name W cn = (Inl ValueError_llm_failed, T)"
    if "\<not> success \<or> py_strip resp = []"
    using no_alias_extract_Inl[OF no_alias 1[OF that]]
    by (simp add: resolve_boardgame_by_cn_name_def)
  have r2: "resolve_boardgame_by_cn_name W cn = (Inl ValueError_no_english_name, T)"
    if "success \<and> py_strip resp \<noteq> []
            \<and> \<not> (\<exists>line \<in> set (response_lines resp). survives (w_lower W) line)"
    using no_alias_extract_Inl[OF no_alias 2] that
    by (simp add: resolve_boardgame_by_cn_name_def)
  from r1 r2 show ?thesis by blast
qed

lemma generic_answer_rejected:
  "\<not> (\<exists>line \<in> set (response_lines (en_prefix @ asc ''board game'')). survives ascii_lower line)"
  by (simp add: response_lines_def survives_def english_name_of_def en_prefix_def
      py_strip_def py_isspace_def asc_def startswith_def ascii_lower_def lower_char_def
      COMMON_TERMS_TO_FILTER_def)

lemma generic_answer_not_blank: "py_strip (en_prefix @ asc ''board game'') \<noteq> []"
  by (simp add: en_prefix_def py_strip_def py_isspace_def asc_def)

text \<open>
  The statement in a world whose generation fails, and in a world whose generation
  answers with the generic term "board game".
\<close>

theorem C2_witness:
  "resolve_boardgame_by_cn_name world_llm_down query_catan
     = (Inl ValueError_llm_failed,
        [DdgsText catan_search_query, GetAvailableModels, GenerateWithModel 5])
   \<and> resolve_boardgame_by_cn_name world_generic_answer query_catan
     = (Inl ValueError_no_english_name,
        [DdgsText catan_search_query, GetAvailableModels, GenerateWithModel 5])"
proof (rule conjI)
  have sq: "catan_search_query = query_catan @ board_game_suffix @ question_suffix"
    by (simp add: catan_search_query_def)
  have na: "alias_candidates (py_strip (case w_alias world_llm_down query_catan of
      None \<Rightarrow> [] | Some v \<Rightarrow> v)) = []"
    by (simp add: world_eval alias_candidates_def py_strip_def)
  have dd: "w_ddgs world_llm_down [] catan_search_query = Inr []" by (simp add: world_eval)
  have mo: "w_models world_llm_down [DdgsText catan_search_query] = Inr [(asc ''utils'', 5)]"
    by (simp add: world_eval)
  have ge: "w_generate world_llm_down [DdgsText catan_search_query, GetAvailableModels] 5
      = Inr (False, [])"
    by (simp add: world_eval)
  from C2_extraction_errors_reach_the_caller[OF na sq dd mo select_utils ge refl]
  show "resolve_boardgame_by_cn_name world_llm_down query_catan
     = (Inl ValueError_llm_failed,
        [DdgsText catan_search_query, GetAvailableModels, GenerateWithModel 5])"
    by simp
next
  have sq: "catan_search_query = query_catan @ board_game_suffix @ question_suffix"
    by (simp add: catan_search_query_def)
  have na: "alias_candidates (py_strip (case w_alias world_generic_answer query_catan of
      None \<Rightarrow> [] | Some v \<Rightarrow> v)) = []"
    by (simp add: world_eval alias_candidates_def py_strip_def)
  have low: "w_lower world_generic_answer = ascii_lower" by (simp add: world_eval)
  have dd: "w_ddgs world_generic_answer [] catan_search_query = Inr []"
    by (simp add: world_eval)
  have mo: "w_models world_generic_answer [DdgsText catan_search_query]
      = Inr [(asc ''utils'', 5)]"
    by (simp add: world_eval)
  have ge: "w_generate world_generic_answer [DdgsText catan_search_query, GetAvailableModels] 5
      = Inr (True, en_prefix @ asc ''board game'')"
    by (simp add: world_eval)
  from C2_extraction_errors_reach_the_caller[OF na sq dd mo select_utils ge refl]
  show "resolve_boardgame_by_cn_name world_generic_answer query_catan
     = (Inl ValueError_no_english_name,
        [DdgsText catan_search_query, GetAvailableModels, GenerateWithModel 5])"
    using generic_answer_rejected generic_answer_not_blank by (simp add: low)
qed

text \<open>
  C10: when the dictionary gives no candidate, the web search answers and no model is
  available, the extractor returns the bare empty list after asking for the models, and
  the resolver, unpacking it into two names, ends with a \<open>ValueError\<close> and not with
  None.
\<close>

theorem C10_bare_list_breaks_unpacking:
  assumes no_alias:
      "alias_candidates (py_strip (case w_alias W cn of None \<Rightarrow> [] | Some v \<Rightarrow> v)) = []"
    and sq: "sq = cn @ board_game_suffix @ question_suffix"
    and ddgs: "w_ddgs W [] sq = Inr results"
    and models: "w_models W [DdgsText sq] = Inr []"
  shows "fetch_english_candidates_from_ddg W [] (cn @ board_game_suffix)
           = (Inr Bare_empty_list, [DdgsText sq, GetAvailableModels])
       \<and> resolve_boardgame_by_cn_name W cn
           = (Inl ValueError_unpack, [DdgsText sq, GetAvailableModels])"
proof -
  from sq ddgs models have f: "fetch_english_candidates_from_ddg W [] (cn @ board_game_suffix)
           = (Inr Bare_empty_list, [DdgsText sq, GetAvailableModels])"
    by (simp add: fetch_english_candidates_from_ddg_def Let_def)
  from no_alias_extract_bare[OF no_alias f] f show ?thesis
    by (simp add: resolve_boardgame_by_cn_name_def)
qed

text \<open>The statement in the world with no available model.\<close>

theorem C10_witness:
  "w_models world_no_models [DdgsText catan_search_query] = Inr []
   \<and> fetch_english_candidates_from_ddg world_no_models [] (query_catan @ board_game_suffix)
           = (Inr Bare_empty_list, [DdgsText catan_search_query, GetAvailableModels])
   \<and> resolve_boardgame_by_cn_name world_no_models query_catan
           = (Inl ValueError_unpack, [DdgsText catan_search_query, GetAvailableModels])"
proof -
  have sq: "catan_search_query = query_catan @ board_game_suffix @ question_suffix"
    by (simp add: catan_search_query_def)
  have na: "alias_candidates (py_strip (case w_alias world_no_models query_catan of
      None \<Rightarrow> [] | Some v \<Rightarrow> v)) = []"
    by (simp add: world_eval alias_candidates_def py_strip_def)
  have dd: "w_ddgs world_no_models [] catan_search_query = Inr []" by (simp add: world_eval)
  have m: "w_models world_no_models [DdgsText catan_search_query] = Inr []"
    by (simp add: world_eval)
  from C10_bare_list_breaks_unpacking[OF na sq dd m] m show ?thesis by simp
qed

subsection \<open>Choice of the model\<close>

lemma fallback_loop_find:
  "fallback_loop models = map_option snd (find (\<lambda>(name, conf). name \<noteq> asc ''replay'') models)"
  by (induction models) auto

text \<open>
  C7, as stated, fails. When the only available model is named "embedding", the
  generation is called with it.
\<close>

theorem C7_counterexample_embedding_is_chosen:
  "w_models world_embedding [DdgsText catan_search_query] = Inr [(asc ''embedding'', 7)]
   \<and> snd (fetch_english_candidates_from_ddg world_embedding [] (query_catan @ board_game_suffix))
       = [DdgsText catan_search_query, GetAvailableModels, GenerateWithModel 7]"
  by (simp add: fetch_english_candidates_from_ddg_def world_eval select_model_def asc_def
      catan_search_query_def Let_def)

text \<open>
  C7, amended: when "utils" is not among the available models and some available model
  is not named "replay", the extractor takes the first such model in the order of the
  dict, whatever its name ("embedding" is not excluded), and calls the generation with
  it.
\<close>

theorem C7_fallback_is_first_model_not_named_replay:
  assumes ddgs: "w_ddgs W tr (kw @ question_suffix) = Inr results"
    and models: "w_models W (tr @ [DdgsText (kw @ question_suffix)]) = Inr models"
    and no_utils: "asc ''utils'' \<notin> fst ` set models"
    and first: "find (\<lambda>(name, conf). name \<noteq> asc ''replay'') models = Some (name, conf)"
  shows "select_model models = Some conf
     \<and> snd (fetch_english_candidates_from_ddg W tr kw)
         = tr @ [DdgsText (kw @ question_suffix), GetAvailableModels, GenerateWithModel conf]"
proof -
  from no_utils first have sel: "select_model models = Some conf"
    by (simp add: select_model_def fallback_loop_find)
  from first have ne: "models \<noteq> []" by auto
  from ddgs models sel ne show ?thesis
    by (auto simp: fetch_english_candidates_from_ddg_def Let_def
        split: sum.splits prod.splits)
qed

text \<open>The statement for the models "replay" and "chat": "chat" is taken.\<close>

theorem C7_witness:
  "w_models world_replay_first [DdgsText catan_search_query]
     = Inr [(asc ''replay'', 2), (asc ''chat'', 3)]
   \<and> select_model [(asc ''replay'', 2), (asc ''chat'', 3)] = Some 3
   \<and> snd (fetch_english_candidates_from_ddg world_replay_first []
             (query_catan @ board_game_suffix))
       = [DdgsText catan_search_query, GetAvailableModels, GenerateWithModel 3]"
proof -
  have m: "w_models world_replay_first
             ([] @ [DdgsText ((query_catan @ board_game_suffix) @ question_suffix)])
     = Inr [(asc ''replay'', 2), (asc ''chat'', 3)]"
    by (simp add: world_eval)
  have d: "w_ddgs world_replay_first [] ((query_catan @ board_game_suffix) @ question_suffix)
     = Inr []"
    by (simp add: world_eval)
  have u: "asc ''utils'' \<notin> fst ` set [(asc ''replay'', 2::nat), (asc ''chat'', 3)]"
    by (simp add: asc_def)
  have f: "find (\<lambda>(name, conf). name \<noteq> asc ''replay'') [(asc ''replay'', 2::nat), (asc ''chat'', 3)]
     = Some (asc ''chat'', 3)"
    by (simp add: asc_def)
  from C7_fallback_is_first_model_not_named_replay[OF d m u f] m
  show ?thesis by (simp add: catan_search_query_def)
qed

subsection \<open>Failure records\<close>







subsection \<open>Average weight\<close>

text \<open>
  C8, as stated, fails. For the JSON number 3 the code gives "N/A", not "3.00": it
  formats strings only.
\<close>

theorem C8_counterexample_json_number:
  "avg_weight_of_stats float_unused fmt_unused [(asc ''avgweight'', JInt 3)] = asc ''N/A''
   \<and> asc ''N/A'' \<noteq> asc ''3.00''"
  by (simp add: avg_weight_of_stats_def avgweight_str_def asc_def)

text \<open>
  C8, amended: the \<open>avg_weight\<close> of the scraping detail is the two-decimal format of
  the value when the value is a non-empty string that \<open>float\<close> parses; it is "N/A" when
  the value is an empty string or a string that \<open>float\<close> does not parse, and for every
  value that is not a string, a JSON number included; when the key is missing, the
  default "0" is treated as the value.
\<close>

theorem C8_avg_weight_by_kind_of_value:
  "(\<forall>s x. map_of stats (asc ''avgweight'') = Some (JStr s) \<and> s \<noteq> [] \<and> float s = Some x
        \<longrightarrow> avg_weight_of_stats float fmt stats = fmt x)
   \<and> (\<forall>s. map_of stats (asc ''avgweight'') = Some (JStr s) \<and> (s = [] \<or> float s = None)
        \<longrightarrow> avg_weight_of_stats float fmt stats = asc ''N/A'')
   \<and> (\<forall>v. map_of stats (asc ''avgweight'') = Some v \<and> (\<forall>s. v \<noteq> JStr s)
        \<longrightarrow> avg_weight_of_stats float fmt stats = asc ''N/A'')
   \<and> (map_of stats (asc ''avgweight'') = None
        \<longrightarrow> avg_weight_of_stats float fmt stats
            = (case float (asc ''0'') of Some x \<Rightarrow> fmt x | None \<Rightarrow> asc ''N/A''))"
proof (intro conjI allI impI)
  fix s x
  assume "map_of stats (asc ''avgweight'') = Some (JStr s) \<and> s \<noteq> [] \<and> float s = Some x"
  then show "avg_weight_of_stats float fmt stats = fmt x"
    by (simp add: avg_weight_of_stats_def avgweight_str_def)
next
  fix s
  assume "map_of stats (asc ''avgweight'') = Some (JStr s) \<and> (s = [] \<or> float s = None)"
  then show "avg_weight_of_stats float fmt stats = asc ''N/A''"
    by (auto simp: avg_weight_of_stats_def avgweight_str_def)
next
  fix v :: "'a json"
  assume "map_of stats (asc ''avgweight'') = Some v \<and> (\<forall>s. v \<noteq> JStr s)"
  then show "avg_weight_of_stats float fmt stats = asc ''N/A''"
    by (cases v) (simp_all add: avg_weight_of_stats_def avgweight_str_def)
next
  assume "map_of stats (asc ''avgweight'') = None"
  then show "avg_weight_of_stats float fmt stats
            = (case float (asc ''0'') of Some x \<Rightarrow> fmt x | None \<Rightarrow> asc ''N/A'')"
    by (simp add: avg_weight_of_stats_def avgweight_str_def asc_def)
qed

text \<open>The statement for the JSON number 3.\<close>

theorem C8_witness:
  "map_of [(asc ''avgweight'', JInt 3 :: unit json)] (asc ''avgweight'') = Some (JInt 3)
   \<and> avg_weight_of_stats float_unused fmt_unused [(asc ''avgweight'', JInt 3)] = asc ''N/A''"
proof -
  have m: "map_of [(asc ''avgweight'', JInt 3 :: unit json)] (asc ''avgweight'') = Some (JInt 3)"
    by simp
  have "\<forall>s. (JInt 3 :: unit json) \<noteq> JStr s" by simp
  with m C8_avg_weight_by_kind_of_value[of "[(asc ''avgweight'', JInt 3 :: unit json)]"
      float_unused fmt_unused]
  show ?thesis by blast
qed

subsection \<open>Registration\<close>

text \<open>
  C9: when the command registers an English name for a Chinese name that the dictionary
  does not have (the name is neither the clear word nor empty, the English name is not a
  delete word, is not empty and has a letter or digit, and the file can be written), the
  file becomes the dictionary of the new pair alone: every other key that was
  registered before is gone.
\<close>

theorem C9_registration_overwrites_the_file:
  assumes cn: "cn = py_strip cn_group" and en: "en = py_strip en_group"
    and not_clear: "cn \<noteq> clear_word"
    and not_delete: "lower en \<notin> set delete_words"
    and cn_given: "cn \<noteq> []" and en_given: "en \<noteq> []"
    and alnum: "\<exists>c \<in> set en. isalnum c"
    and absent: "load_alias_from_file s cn = None"
    and writes: "write_failure s = None"
  shows "execute lower isalnum s cn_group en_group
           = ((True, Registered, True), s\<lparr>alias_file := Json [cn \<mapsto> en]\<rparr>)
     \<and> (\<forall>k. k \<noteq> cn
           \<longrightarrow> load_alias_from_file (snd (execute lower isalnum s cn_group en_group)) k = None)"
proof -
  from assms have ex: "execute lower isalnum s cn_group en_group
           = ((True, Registered, True), s\<lparr>alias_file := Json [cn \<mapsto> en]\<rparr>)"
    by (simp add: execute_def save_alias_def Let_def list_ex_iff)
  then show ?thesis by (simp add: load_alias_from_file_def)
qed

text \<open>
  The statement for a file that holds the entry "old": after registering "new", the
  entry "old" is gone.
\<close>

theorem C9_witness:
  "load_alias_from_file fs_with_old_entry (asc ''old'') = Some (asc ''Old Game'')
   \<and> execute ascii_lower ascii_isalnum fs_with_old_entry (asc ''new'') (asc ''New Game'')
       = ((True, Registered, True),
          fs_with_old_entry\<lparr>alias_file := Json [asc ''new'' \<mapsto> asc ''New Game'']\<rparr>)
   \<and> load_alias_from_file
        (snd (execute ascii_lower ascii_isalnum fs_with_old_entry (asc ''new'') (asc ''New Game'')))
        (asc ''old'') = None"
proof -
  have cn: "asc ''new'' = py_strip (asc ''new'')"
    by (simp add: py_strip_def py_isspace_def asc_def)
  have en: "asc ''New Game'' = py_strip (asc ''New Game'')"
    by (simp add: py_strip_def py_isspace_def asc_def)
  have nc: "asc ''new'' \<noteq> clear_word" by (simp add: clear_word_def asc_def)
  have nd: "ascii_lower (asc ''New Game'') \<notin> set delete_words"
    by (simp add: delete_words_def asc_def ascii_lower_def lower_char_def)
  have c1: "asc ''new'' \<noteq> []" and e1: "asc ''New Game'' \<noteq> []" by (simp_all add: asc_def)
  have al: "\<exists>c \<in> set (asc ''New Game''). ascii_isalnum c"
    by (simp add: asc_def ascii_isalnum_def)
  have ab: "load_alias_from_file fs_with_old_entry (asc ''new'') = None"
    by (simp add: load_alias_from_file_def fs_with_old_entry_def asc_def)
  have wr: "write_failure fs_with_old_entry = None" by (simp add: fs_with_old_entry_def)
  have old: "load_alias_from_file fs_with_old_entry (asc ''old'') = Some (asc ''Old Game'')"
    by (simp add: load_alias_from_file_def fs_with_old_entry_def)
  have ne: "asc ''old'' \<noteq> asc ''new''" by (simp add: asc_def)
  note t = C9_registration_overwrites_the_file[where lower = ascii_lower
      and isalnum = ascii_isalnum and s = fs_with_old_entry and cn = "asc ''new''"
      and en = "asc ''New Game''" and cn_group = "asc ''new''"
      and en_group = "asc ''New Game''", OF cn en nc nd c1 e1 al ab wr]
  from t have ex: "execute ascii_lower ascii_isalnum fs_with_old_entry (asc ''new'')
       (asc ''New Game'')
       = ((True, Registered, True),
          fs_with_old_entry\<lparr>alias_file := Json [asc ''new'' \<mapsto> asc ''New Game'']\<rparr>)"
    by (rule conjunct1)
  from t have "\<forall>k. k \<noteq> asc ''new'' \<longrightarrow> load_alias_from_file
        (snd (execute ascii_lower ascii_isalnum fs_with_old_entry (asc ''new'') (asc ''New Game'')))
        k = None"
    by (rule conjunct2)
  with ne have gone: "load_alias_from_file
        (snd (execute ascii_lower ascii_isalnum fs_with_old_entry (asc ''new'') (asc ''New Game'')))
        (asc ''old'') = None"
    by blast
  from old ex gone show ?thesis by (intro conjI)
qed

end
